theory Spec2Isabelle
  imports Complex_Main
begin

section \<open>Conventions of the embedding\<close>

text \<open>
  The pipeline classes of the repository (Voter, TrackerSimple, SessionManager, Deduplicator,
  Validator) are embedded as HOL functions over records.

  \<^item> A JavaScript string is the list of its UTF-16 code units (\<open>jsstring\<close>), which is what
    \<^verbatim>\<open>length\<close>, \<^verbatim>\<open>charCodeAt\<close>, \<^verbatim>\<open>split('')\<close> and \<^verbatim>\<open>includes\<close> work on.
  \<^item> A number of the tracker (a coordinate of a box, a confidence, a threshold, a sample time)
    is an IEEE 754 double (\<open>double\<close>, next section): every operation on it rounds, overflows
    and yields \<^verbatim>\<open>NaN\<close> as the operation of the source does.
  \<^item> In the Voter, the SessionManager and the Deduplicator a JavaScript number is an exact
    rational (\<open>rat\<close>): sums, means and quotients are the mathematical ones, without the
    rounding of IEEE doubles.
  \<^item> A \<^verbatim>\<open>Map\<close> is the list of its values in insertion order; the key of an entry is a
    field of the value (the identity it was inserted under).
  \<^item> A method that mutates \<^verbatim>\<open>this\<close> takes the object and returns the new one.
  \<^item> Calls of the logger have no effect on any result and are left out.
\<close>

type_synonym jsstring = "nat list"


text \<open>
  \<^verbatim>\<open>xs.sort((a, b) => key(b) - key(a))\<close>: a stable sort (ECMAScript 2019), descending in the
  key. \<open>sort_key\<close> is a stable insertion sort, ascending in its key.
\<close>

definition sort_desc :: "('a \<Rightarrow> rat) \<Rightarrow> 'a list \<Rightarrow> 'a list" where
  "sort_desc key xs = sort_key (\<lambda>x. - key x) xs"

section \<open>The numbers of the tracker: IEEE 754 doubles\<close>

text \<open>
  A Number of JavaScript is a double (binary64). \<open>Finite m e\<close> is the number \<open>m * 2^e\<close>; the
  operations below return it with an odd \<open>m\<close>, and 0 as \<open>Finite 0 0\<close>, so that a number has one
  form. \<open>Finite 0 0\<close> is \<open>+0\<close>, and \<open>-0\<close> is a value of its own. A double has an \<open>m\<close> below
  \<open>2^53\<close> in magnitude and an \<open>e\<close> from \<open>-1074\<close> to \<open>971\<close>; the operations are defined, and
  everything below is proved, for all values of the type.
\<close>

datatype double = Finite int int | NegZero | PosInfinity | NegInfinity | NaN

fun significand :: "double \<Rightarrow> int" where
  "significand (Finite m e) = m"
| "significand _ = 0"

fun exponent :: "double \<Rightarrow> int" where
  "exponent (Finite m e) = e"
| "exponent _ = 0"

fun is_zero :: "double \<Rightarrow> bool" where
  "is_zero (Finite m e) = (m = 0)"
| "is_zero NegZero = True"
| "is_zero _ = False"

definition is_infinite :: "double \<Rightarrow> bool" where
  "is_infinite a = (a = PosInfinity \<or> a = NegInfinity)"

text \<open>The sign bit of a double that is not \<^verbatim>\<open>NaN\<close>.\<close>

fun sign_bit :: "double \<Rightarrow> bool" where
  "sign_bit (Finite m e) = (m < 0)"
| "sign_bit NegZero = True"
| "sign_bit NegInfinity = True"
| "sign_bit _ = False"

definition zero_of :: "bool \<Rightarrow> double" where
  "zero_of negative = (if negative then NegZero else Finite 0 0)"

definition infinity_of :: "bool \<Rightarrow> double" where
  "infinity_of negative = (if negative then NegInfinity else PosInfinity)"

text \<open>\<open>m * 2^k\<close>, for \<open>k\<close> from 0.\<close>

definition shift :: "int \<Rightarrow> int \<Rightarrow> int" where
  "shift m k = push_bit (nat k) m"

subsection \<open>Rounding\<close>

text \<open>\<open>m * 2^e\<close> with an odd significand.\<close>

function normal :: "int \<Rightarrow> int \<Rightarrow> double" where
  "normal m e =
     (if m = 0 then Finite 0 0
      else if even m then normal (m div 2) (e + 1)
      else Finite m e)"
  by pat_completeness auto

termination
  by (relation "measure (\<lambda>(m, e). nat \<bar>m\<bar>)") auto

declare normal.simps [simp del]

text \<open>The integer part of the binary logarithm of \<open>n\<close>, for \<open>n\<close> from 1.\<close>

function floor_log2 :: "int \<Rightarrow> int" where
  "floor_log2 n = (if n < 2 then 0 else 1 + floor_log2 (n div 2))"
  by pat_completeness auto

termination
  by (relation "measure nat") auto

declare floor_log2.simps [simp del]

text \<open>
  The binary exponent of the quotient \<open>n / d\<close> of two positive integers: the \<open>x\<close> with
  \<open>2^x \<le> n / d < 2^(x+1)\<close>. For an \<open>n\<close> of \<open>a + 1\<close> bits and a \<open>d\<close> of \<open>b + 1\<close> bits it is
  \<open>a - b\<close> or one less.
\<close>

definition exponent_of :: "int \<Rightarrow> int \<Rightarrow> int" where
  "exponent_of n d =
     (let t = floor_log2 n - floor_log2 d
      in if (if 0 \<le> t then shift d t \<le> n else d \<le> shift n (- t)) then t else t - 1)"

text \<open>The integer nearest to \<open>a / b\<close>, for \<open>a\<close> from 0 and \<open>b\<close> from 1; a tie goes to the even one.\<close>

definition round_half_even :: "int \<Rightarrow> int \<Rightarrow> int" where
  "round_half_even a b =
     (let c = a div b; r = a mod b
      in if 2 * r < b then c
         else if b < 2 * r then c + 1
         else if even c then c else c + 1)"

text \<open>
  \<open>round_ratio negative n d e\<close> is the double nearest to \<open>(n / d) * 2^e\<close>, for positive
  integers \<open>n\<close> and \<open>d\<close>, with the sign bit \<open>negative\<close>; a tie goes to the even significand.
  This is the rounding of every arithmetic operation and of a decimal literal. The significand
  of a double has 53 bits, so the doubles around a number with the binary exponent \<open>x\<close> are
  the multiples of \<open>2^q\<close> with \<open>q = x - 52\<close>, and with \<open>q = -1074\<close> when that is less (the
  subnormal doubles). The nearest multiple is \<open>c * 2^q\<close>. It is an infinity when it reaches
  \<open>2^1024\<close>, which takes \<open>q > 971\<close>, or \<open>q = 971\<close> and \<open>c = 2^53\<close>.
\<close>

definition round_ratio :: "bool \<Rightarrow> int \<Rightarrow> int \<Rightarrow> int \<Rightarrow> double" where
  "round_ratio negative n d e =
     (let q = max (exponent_of n d + e - 52) (- 1074);
          c = (if q \<le> e then round_half_even (shift n (e - q)) d
               else round_half_even n (shift d (q - e)))
      in if c = 0 then zero_of negative
         else if 971 < q \<or> (q = 971 \<and> shift 1 53 \<le> c) then infinity_of negative
         else normal (if negative then - c else c) q)"

text \<open>The double nearest to a rational: the value of the decimal literal that denotes it.\<close>

definition dbl :: "rat \<Rightarrow> double" where
  "dbl x =
     (if x = 0 then Finite 0 0
      else case quotient_of \<bar>x\<bar> of (n, d) \<Rightarrow> round_ratio (x < 0) n d 0)"

subsection \<open>Arithmetic\<close>

text \<open>
  \<^verbatim>\<open>a + b\<close>. The sum of two infinities of opposite sign is \<^verbatim>\<open>NaN\<close>; a sum that is exactly 0
  is \<open>+0\<close>, unless both operands are \<open>-0\<close>.
\<close>

definition d_add :: "double \<Rightarrow> double \<Rightarrow> double" where
  "d_add a b =
     (if a = NaN \<or> b = NaN then NaN
      else if is_infinite a then (if is_infinite b \<and> b \<noteq> a then NaN else a)
      else if is_infinite b then b
      else
        let e = min (exponent a) (exponent b);
            m = shift (significand a) (exponent a - e) + shift (significand b) (exponent b - e)
        in if m = 0 then (if a = NegZero \<and> b = NegZero then NegZero else Finite 0 0)
           else round_ratio (m < 0) \<bar>m\<bar> 1 e)"

fun d_neg :: "double \<Rightarrow> double" where
  "d_neg (Finite m e) = (if m = 0 then NegZero else Finite (- m) e)"
| "d_neg NegZero = Finite 0 0"
| "d_neg PosInfinity = NegInfinity"
| "d_neg NegInfinity = PosInfinity"
| "d_neg NaN = NaN"

text \<open>\<^verbatim>\<open>a - b\<close> is \<^verbatim>\<open>a + (-b)\<close>.\<close>

definition d_sub :: "double \<Rightarrow> double \<Rightarrow> double" where
  "d_sub a b = d_add a (d_neg b)"

text \<open>
  \<^verbatim>\<open>a * b\<close>. The sign of the product is the exclusive or of the signs; an infinity times a
  zero is \<^verbatim>\<open>NaN\<close>.
\<close>

definition d_mul :: "double \<Rightarrow> double \<Rightarrow> double" where
  "d_mul a b =
     (if a = NaN \<or> b = NaN then NaN
      else if (is_infinite a \<and> is_zero b) \<or> (is_zero a \<and> is_infinite b) then NaN
      else if is_infinite a \<or> is_infinite b then infinity_of (sign_bit a \<noteq> sign_bit b)
      else if is_zero a \<or> is_zero b then zero_of (sign_bit a \<noteq> sign_bit b)
      else round_ratio (sign_bit a \<noteq> sign_bit b) \<bar>significand a * significand b\<bar> 1
             (exponent a + exponent b))"

text \<open>
  \<^verbatim>\<open>a / b\<close>. A zero by a zero and an infinity by an infinity are \<^verbatim>\<open>NaN\<close>; any other number
  by a zero is an infinity.
\<close>

definition d_div :: "double \<Rightarrow> double \<Rightarrow> double" where
  "d_div a b =
     (if a = NaN \<or> b = NaN then NaN
      else if (is_infinite a \<and> is_infinite b) \<or> (is_zero a \<and> is_zero b) then NaN
      else if is_infinite a \<or> is_zero b then infinity_of (sign_bit a \<noteq> sign_bit b)
      else if is_infinite b \<or> is_zero a then zero_of (sign_bit a \<noteq> sign_bit b)
      else round_ratio (sign_bit a \<noteq> sign_bit b) \<bar>significand a\<bar> \<bar>significand b\<bar>
             (exponent a - exponent b))"

subsection \<open>Comparisons\<close>

text \<open>
  \<^verbatim>\<open>a < b\<close> and \<^verbatim>\<open>a > b\<close>: false when an operand is \<^verbatim>\<open>NaN\<close>; the two zeros are equal.
  \<^verbatim>\<open>a >= b\<close> is not the negation of \<^verbatim>\<open>a < b\<close>: it is false as well when an operand is
  \<^verbatim>\<open>NaN\<close>.
\<close>

definition d_lt :: "double \<Rightarrow> double \<Rightarrow> bool" where
  "d_lt a b =
     (a \<noteq> NaN \<and> b \<noteq> NaN \<and> a \<noteq> PosInfinity \<and> b \<noteq> NegInfinity \<and>
      (a = NegInfinity \<or> b = PosInfinity \<or>
       (let e = min (exponent a) (exponent b)
        in shift (significand a) (exponent a - e) < shift (significand b) (exponent b - e))))"

definition d_gt :: "double \<Rightarrow> double \<Rightarrow> bool" where
  "d_gt a b = d_lt b a"

definition d_ge :: "double \<Rightarrow> double \<Rightarrow> bool" where
  "d_ge a b = (a \<noteq> NaN \<and> b \<noteq> NaN \<and> \<not> d_lt a b)"

text \<open>
  \<^verbatim>\<open>Math.max\<close> and \<^verbatim>\<open>Math.min\<close> of two numbers: \<^verbatim>\<open>NaN\<close> when one of them is; \<open>+0\<close>
  counts as larger than \<open>-0\<close>.
\<close>

definition d_max :: "double \<Rightarrow> double \<Rightarrow> double" where
  "d_max a b =
     (if a = NaN \<or> b = NaN then NaN
      else if d_lt a b then b
      else if d_lt b a then a
      else if a = NegZero then b else a)"

definition d_min :: "double \<Rightarrow> double \<Rightarrow> double" where
  "d_min a b =
     (if a = NaN \<or> b = NaN then NaN
      else if d_lt a b then a
      else if d_lt b a then b
      else if a = NegZero then a else b)"

text \<open>
  \<^verbatim>\<open>Math.round\<close>: the nearest integer, a tie going up; a result that is 0 keeps the sign of
  the argument. A double with an exponent from 0 is an integer.
\<close>

fun d_round :: "double \<Rightarrow> double" where
  "d_round (Finite m e) =
     (if 0 \<le> e then Finite m e
      else
        let n = (2 * m + shift 1 (- e)) div shift 2 (- e)
        in if n = 0 then zero_of (m < 0) else round_ratio (n < 0) \<bar>n\<bar> 1 0)"
| "d_round a = a"

subsection \<open>Sorting with a comparison function\<close>

text \<open>
  \<^verbatim>\<open>xs.sort((a, b) => cmp(a, b))\<close>: \<open>a\<close> comes after \<open>b\<close> only when \<^verbatim>\<open>cmp(a, b) > 0\<close> (a
  result that is \<^verbatim>\<open>NaN\<close> counts as 0), and the sort is stable (ECMAScript 2019). This is
  the stable insertion sort. Where the comparison function is not a consistent one (which for
  a difference of two fields takes a field that is \<^verbatim>\<open>NaN\<close> or two equal infinities),
  ECMAScript leaves the order to the implementation, and the order of the model is one of them.
\<close>

fun insert_by :: "('a \<Rightarrow> 'a \<Rightarrow> double) \<Rightarrow> 'a \<Rightarrow> 'a list \<Rightarrow> 'a list" where
  "insert_by cmp x [] = [x]"
| "insert_by cmp x (y # ys) =
     (if d_gt (cmp x y) (Finite 0 0) then y # insert_by cmp x ys else x # y # ys)"

definition array_sort :: "('a \<Rightarrow> 'a \<Rightarrow> double) \<Rightarrow> 'a list \<Rightarrow> 'a list" where
  "array_sort cmp xs = foldr (insert_by cmp) xs []"

section \<open>Voter\<close>

record OCRCandidate =
  cand_text :: jsstring
  cand_conf :: rat

text \<open>The value of one entry of \<^verbatim>\<open>textGroups\<close>, with its key.\<close>

record text_group =
  grp_text :: jsstring
  grp_count :: nat
  confidences :: "rat list"
  grp_candidates :: "OCRCandidate list"

text \<open>
  An element of \<^verbatim>\<open>voteCandidates\<close>, as it goes into the result. The source also keeps the
  sum of the confidences in it (\<^verbatim>\<open>totalConfidence\<close>), which nothing reads.
\<close>

record vote_candidate =
  vc_text :: jsstring
  vc_count :: nat
  avgConfidence :: rat
  maxConfidence :: rat

datatype vote_method = Frequency | Confidence | Tiebreak

record VoteResult =
  winner :: jsstring
  vr_confidence :: rat
  votes :: "jsstring \<rightharpoonup> nat"
  vote_method :: vote_method
  vr_candidates :: "vote_candidate list"

definition createEmptyResult :: VoteResult where
  "createEmptyResult =
     \<lparr>winner = [], vr_confidence = 0, votes = Map.empty, vote_method = Frequency,
      vr_candidates = []\<rparr>"

text \<open>
  The body of \<^verbatim>\<open>allCandidates.forEach\<close>: the group of the candidate's text is created at the
  end of the map when it is missing, then the candidate is counted in it.
\<close>

fun add_candidate :: "text_group list \<Rightarrow> OCRCandidate \<Rightarrow> text_group list" where
  "add_candidate [] c =
     [\<lparr>grp_text = cand_text c, grp_count = 1, confidences = [cand_conf c],
       grp_candidates = [c]\<rparr>]"
| "add_candidate (g # gs) c =
     (if grp_text g = cand_text c
      then g\<lparr>grp_count := grp_count g + 1, confidences := confidences g @ [cand_conf c],
             grp_candidates := grp_candidates g @ [c]\<rparr> # gs
      else g # add_candidate gs c)"

definition textGroups :: "OCRCandidate list \<Rightarrow> text_group list" where
  "textGroups allCandidates = foldl add_candidate [] allCandidates"

text \<open>\<^verbatim>\<open>confidences.reduce((sum, conf) => sum + conf, 0)\<close>\<close>

definition reduce_sum :: "rat list \<Rightarrow> rat" where
  "reduce_sum cs = foldl (\<lambda>sum conf. sum + conf) 0 cs"

text \<open>
  \<^verbatim>\<open>Math.max(...confidences)\<close>. Every group holds at least one confidence (it is created by
  the candidate that is pushed into it), so the value \<^verbatim>\<open>-Infinity\<close> of an empty argument
  list does not arise; the first equation is never used by \<open>vote\<close>.
\<close>

fun math_max :: "rat list \<Rightarrow> rat" where
  "math_max [] = 0"
| "math_max (c # cs) = fold max cs c"

definition to_vote_candidate :: "text_group \<Rightarrow> vote_candidate" where
  "to_vote_candidate g =
     \<lparr>vc_text = grp_text g, vc_count = grp_count g,
      avgConfidence = reduce_sum (confidences g) / of_nat (length (confidences g)),
      maxConfidence = math_max (confidences g)\<rparr>"

text \<open>
  The choice of the winner among the sorted \<^verbatim>\<open>voteCandidates\<close> (a non-empty list whenever
  \<open>vote\<close> gets there). \<^verbatim>\<open>tiedCandidates\<close> holds the first candidate, so it is never empty.
\<close>

definition choose_winner :: "vote_candidate list \<Rightarrow> vote_candidate \<times> vote_method" where
  "choose_winner voteCandidates =
     (case voteCandidates of
        [] \<Rightarrow> (\<lparr>vc_text = [], vc_count = 0, avgConfidence = 0, maxConfidence = 0\<rparr>, Frequency)
      | [c] \<Rightarrow> (c, Frequency)
      | c0 # c1 # _ \<Rightarrow>
          if vc_count c0 > vc_count c1 then (c0, Frequency)
          else
            let tiedCandidates = filter (\<lambda>c. vc_count c = vc_count c0) voteCandidates;
                byAvg = sort_desc avgConfidence tiedCandidates
            in (case byAvg of
                  [] \<Rightarrow> (c0, Confidence)
                | [t] \<Rightarrow> (t, Confidence)
                | t0 # t1 # _ \<Rightarrow>
                    if avgConfidence t0 > avgConfidence t1 then (t0, Confidence)
                    else (hd (sort_desc maxConfidence byAvg), Tiebreak)))"

definition vote :: "OCRCandidate list list \<Rightarrow> VoteResult" where
  "vote candidates =
     (if length candidates = 0 then createEmptyResult
      else
        let allCandidates = concat candidates in
        if length allCandidates = 0 then createEmptyResult
        else
          let voteCandidates =
                sort_desc (\<lambda>c. of_nat (vc_count c)) (map to_vote_candidate (textGroups
                    allCandidates));
              (winner, method) = choose_winner voteCandidates
          in \<lparr>winner = vc_text winner, vr_confidence = avgConfidence winner,
              votes = map_of (map (\<lambda>c. (vc_text c, vc_count c)) voteCandidates),
              vote_method = method, vr_candidates = voteCandidates\<rparr>)"

section \<open>TrackerSimple\<close>

datatype detection_type = Vehicle | Plate

type_synonym BBoxArray = "double \<times> double \<times> double \<times> double"

record Detection =
  det_type :: detection_type
  bbox :: BBoxArray
  conf :: double
  trackId :: "nat option"

datatype track_status = Active | Lost | Finished

text \<open>
  The identity of a track is \<^verbatim>\<open>String(this.nextTrackId++)\<close>, the decimal text of a counter, and
  the key of the track in the map is that same text. Both are modelled by the counter's value
  (the counter of the source is a double, exact up to \<open>2^53\<close>, which no run reaches).
  The \<open>detections\<close> of a track hold the detection objects themselves, so they show the
  identity stamped on a detection right after it is pushed; the model stores the stamped
  detection.
\<close>

record Track =
  trk_id :: nat
  status :: track_status
  startTime :: double
  lastSeen :: double
  detections :: "Detection list"
  trk_bbox :: BBoxArray
  confidence :: double

record TrackerSimple =
  tracks :: "Track list"
  nextTrackId :: nat
  iouThreshold :: double
  maxLostFrames :: double
  minDetections :: double
  frameCount :: nat

text \<open>
  The constructor: each field of the optional configuration replaces a default. The defaults
  are the literals \<^verbatim>\<open>0.3\<close>, \<^verbatim>\<open>10\<close> and \<^verbatim>\<open>3\<close>.
\<close>

definition new_TrackerSimple ::
  "double option \<Rightarrow> double option \<Rightarrow> double option \<Rightarrow> TrackerSimple" where
  "new_TrackerSimple cfg_iouThreshold cfg_maxLostFrames cfg_minDetections =
     \<lparr>tracks = [], nextTrackId = 1,
      iouThreshold = (case cfg_iouThreshold of Some v \<Rightarrow> v | None \<Rightarrow> dbl (3 / 10)),
      maxLostFrames = (case cfg_maxLostFrames of Some v \<Rightarrow> v | None \<Rightarrow> dbl 10),
      minDetections = (case cfg_minDetections of Some v \<Rightarrow> v | None \<Rightarrow> dbl 3),
      frameCount = 0\<rparr>"

text \<open>\<^verbatim>\<open>this.tracks.set(String(track.id), track)\<close> and \<^verbatim>\<open>this.tracks.delete(key)\<close>\<close>

fun tracks_set :: "Track list \<Rightarrow> Track \<Rightarrow> Track list" where
  "tracks_set [] track = [track]"
| "tracks_set (x # xs) track =
     (if trk_id x = trk_id track then track # xs else x # tracks_set xs track)"

definition tracks_delete :: "Track list \<Rightarrow> nat \<Rightarrow> Track list" where
  "tracks_delete ts key = filter (\<lambda>t. trk_id t \<noteq> key) ts"

text \<open>
  \<^verbatim>\<open>calculateIOU\<close>, every operation a double operation. A comparison of the guard is false
  when a coordinate is \<^verbatim>\<open>NaN\<close>; the quotient is \<^verbatim>\<open>NaN\<close> when the union is 0 (then the
  intersection is 0 as well) and when an area is infinite.
\<close>

definition calculateIOU :: "BBoxArray \<Rightarrow> BBoxArray \<Rightarrow> double" where
  "calculateIOU bbox1 bbox2 =
     (case bbox1 of (x1_1, y1_1, x2_1, y2_1) \<Rightarrow>
      case bbox2 of (x1_2, y1_2, x2_2, y2_2) \<Rightarrow>
        let xLeft = d_max x1_1 x1_2; yTop = d_max y1_1 y1_2;
            xRight = d_min x2_1 x2_2; yBottom = d_min y2_1 y2_2
        in if d_lt xRight xLeft \<or> d_lt yBottom yTop then Finite 0 0
           else
             let intersectionArea = d_mul (d_sub xRight xLeft) (d_sub yBottom yTop);
                 area1 = d_mul (d_sub x2_1 x1_1) (d_sub y2_1 y1_1);
                 area2 = d_mul (d_sub x2_2 x1_2) (d_sub y2_2 y1_2);
                 unionArea = d_sub (d_add area1 area2) intersectionArea
             in d_div intersectionArea unionArea)"

text \<open>The first \<^verbatim>\<open>forEach\<close> of \<^verbatim>\<open>update\<close>: an active track becomes lost.\<close>

definition mark_lost :: "Track \<Rightarrow> Track" where
  "mark_lost track = (if status track = Active then track\<lparr>status := Lost\<rparr> else track)"

text \<open>
  The body of the \<^verbatim>\<open>forEach\<close> that looks for the best track of one detection; the pair is
  \<^verbatim>\<open>(bestMatch, bestIOU)\<close>.
\<close>

definition consider_track ::
  "double \<Rightarrow> BBoxArray \<Rightarrow> Track option \<times> double \<Rightarrow> Track \<Rightarrow> Track option \<times> double" where
  "consider_track threshold dbox best track =
     (if status track = Finished then best
      else
        let iou = calculateIOU dbox (trk_bbox track)
        in if d_gt iou threshold \<and> d_gt iou (snd best) then (Some track, iou) else best)"

definition findBestMatch :: "TrackerSimple \<Rightarrow> Detection \<Rightarrow> Track option \<times> double" where
  "findBestMatch s detection =
     foldl (consider_track (iouThreshold s) (bbox detection)) (None, Finite 0 0) (tracks s)"

text \<open>
  \<^verbatim>\<open>updateTrack\<close>; the new confidence is \<^verbatim>\<open>track.confidence * 0.7 + detection.conf * 0.3\<close>,
  two products and a sum, each rounded.
\<close>

definition updateTrack :: "Track \<Rightarrow> Detection \<Rightarrow> double \<Rightarrow> Track" where
  "updateTrack track detection timeMs =
     track\<lparr>status := Active, lastSeen := timeMs,
           detections := detections track @ [detection],
           trk_bbox := bbox detection,
           confidence :=
             d_add (d_mul (confidence track) (dbl (7 / 10)))
               (d_mul (conf detection) (dbl (3 / 10)))\<rparr>"

text \<open>
  One turn of the loop \<^verbatim>\<open>for (const detection of detections)\<close>. The result is the tracker,
  the detection as the turn leaves it, and whether it was pushed to \<^verbatim>\<open>unmatchedDetections\<close>.
  \<^verbatim>\<open>bestMatch\<close> is an object of the map; it is found again there by its key.
\<close>

definition matchStep ::
  "TrackerSimple \<Rightarrow> double \<Rightarrow> Detection \<Rightarrow> TrackerSimple \<times> Detection \<times> bool" where
  "matchStep s timeMs detection =
     (if det_type detection = Plate then
        (case fst (findBestMatch s detection) of
           Some bestMatch \<Rightarrow>
             let stamped = detection\<lparr>trackId := Some (trk_id bestMatch)\<rparr>
             in (s\<lparr>tracks :=
                     map (\<lambda>t. if trk_id t = trk_id bestMatch
                              then updateTrack t stamped timeMs else t) (tracks s)\<rparr>,
                 stamped, False)
         | None \<Rightarrow> (s, detection, True))
      else (s, detection, False))"

fun matchLoop ::
  "TrackerSimple \<Rightarrow> double \<Rightarrow> Detection list \<Rightarrow> TrackerSimple \<times> (Detection \<times> bool) list" where
  "matchLoop s timeMs [] = (s, [])"
| "matchLoop s timeMs (d # ds) =
     (case matchStep s timeMs d of
        (s1, d1, unmatched) \<Rightarrow>
          (case matchLoop s1 timeMs ds of (s2, rest) \<Rightarrow> (s2, (d1, unmatched) # rest)))"

definition createTrack :: "TrackerSimple \<Rightarrow> Detection \<Rightarrow> double \<Rightarrow> TrackerSimple \<times> Track" where
  "createTrack s detection timeMs =
     (let track = \<lparr>trk_id = nextTrackId s, status = Active, startTime = timeMs,
                    lastSeen = timeMs, detections = [detection],
                    trk_bbox = bbox detection, confidence = conf detection\<rparr>
      in (s\<lparr>tracks := tracks_set (tracks s) track, nextTrackId := nextTrackId s + 1\<rparr>, track))"

text \<open>
  The loop \<^verbatim>\<open>for (const detection of unmatchedDetections)\<close>, run over all detections of the
  cycle with their flag, so that the detections keep their order in the result.
\<close>

fun createLoop ::
  "TrackerSimple \<Rightarrow> double \<Rightarrow> (Detection \<times> bool) list \<Rightarrow> TrackerSimple \<times> Detection list" where
  "createLoop s timeMs [] = (s, [])"
| "createLoop s timeMs ((d, unmatched) # rest) =
     (if unmatched then
        (case createTrack s (d\<lparr>trackId := Some (nextTrackId s)\<rparr>) timeMs of
           (s1, newTrack) \<Rightarrow>
             (case createLoop s1 timeMs rest of
                (s2, ds) \<Rightarrow> (s2, d\<lparr>trackId := Some (trk_id newTrack)\<rparr> # ds)))
      else (case createLoop s timeMs rest of (s2, ds) \<Rightarrow> (s2, d # ds)))"

text \<open>
  The \<^verbatim>\<open>forEach\<close> of \<^verbatim>\<open>handleLostTracks\<close>: \<^verbatim>\<open>framesLost\<close> is
  \<^verbatim>\<open>Math.round((timeMs - track.lastSeen) / 33)\<close>.
\<close>

definition finish_if_lost :: "double \<Rightarrow> double \<Rightarrow> Track \<Rightarrow> Track" where
  "finish_if_lost maxLost timeMs track =
     (if status track = Lost then
        (let framesLost = d_round (d_div (d_sub timeMs (lastSeen track)) (dbl 33))
         in if d_gt framesLost maxLost then track\<lparr>status := Finished\<rparr> else track)
      else track)"

text \<open>
  The finished tracks are sorted with \<^verbatim>\<open>(a, b) => b.lastSeen - a.lastSeen\<close>, and those after
  the first ten are deleted from the map.
\<close>

definition handleLostTracks :: "TrackerSimple \<Rightarrow> double \<Rightarrow> TrackerSimple" where
  "handleLostTracks s timeMs =
     (let ts = map (finish_if_lost (maxLostFrames s) timeMs) (tracks s);
          finishedTracks =
            array_sort (\<lambda>a b. d_sub (lastSeen b) (lastSeen a))
              (filter (\<lambda>t. status t = Finished) ts)
      in if length finishedTracks > 10
         then s\<lparr>tracks := foldl tracks_delete ts (map trk_id (drop 10 finishedTracks))\<rparr>
         else s\<lparr>tracks := ts\<rparr>)"

definition getActiveTracks :: "TrackerSimple \<Rightarrow> Track list" where
  "getActiveTracks s = filter (\<lambda>t. status t = Active) (tracks s)"

text \<open>
  \<^verbatim>\<open>update\<close> returns the tracker after the cycle, the list the source returns, and the
  detections of the input as the cycle leaves them (the source writes their \<^verbatim>\<open>trackId\<close>).
\<close>

definition update ::
  "TrackerSimple \<Rightarrow> Detection list \<Rightarrow> double \<Rightarrow>
     TrackerSimple \<times> Track list \<times> Detection list" where
  "update s dets timeMs =
     (let s0 = s\<lparr>frameCount := frameCount s + 1, tracks := map mark_lost (tracks s)\<rparr>
      in case matchLoop s0 timeMs dets of
           (s1, matched) \<Rightarrow>
             (case createLoop s1 timeMs matched of
                (s2, stamped) \<Rightarrow>
                  let s3 = handleLostTracks s2 timeMs
                  in (s3, getActiveTracks s3, stamped)))"

text \<open>A run of update cycles, each with its detections and its sample time.\<close>

fun updates ::
  "TrackerSimple \<Rightarrow> (Detection list \<times> double) list \<Rightarrow> TrackerSimple \<times> Detection list list" where
  "updates s [] = (s, [])"
| "updates s ((dets, timeMs) # calls) =
     (case update s dets timeMs of
        (s1, _, stamped) \<Rightarrow>
          (case updates s1 calls of (s2, outs) \<Rightarrow> (s2, stamped # outs)))"

text \<open>
  What the map of tracks and the counter satisfy in every state the tracker reaches: the keys
  are distinct (it is a map), and every identity in it was handed out already.
\<close>

definition tracker_inv :: "TrackerSimple \<Rightarrow> bool" where
  "tracker_inv s =
     (distinct (map trk_id (tracks s)) \<and> list_all (\<lambda>t. trk_id t < nextTrackId s) (tracks s))"

section \<open>SessionManager\<close>

record CropImage =
  cropId :: jsstring
  crop_timeMs :: rat
  imageData :: jsstring
  crop_bbox :: BBoxArray
  quality :: "(rat \<times> rat \<times> rat) option"

datatype session_status = SessionActive | Finalized

text \<open>
  A session; its key in the map is \<^verbatim>\<open>track.id.toString()\<close>, modelled as the identity of the
  track. The optional fields \<^verbatim>\<open>finalPlate\<close> and \<^verbatim>\<open>confidence\<close> are never written by the
  SessionManager and are left out.
\<close>

record Session =
  ses_trackId :: nat
  startMs :: rat
  endMs :: rat
  crops :: "CropImage list"
  ses_status :: session_status

record SessionManager =
  sessions :: "Session list"
  maxSessionFrames :: rat
  disappearThreshold :: rat
  minSessionFrames :: rat

definition new_SessionManager :: "rat option \<Rightarrow> rat option \<Rightarrow> rat option \<Rightarrow> SessionManager" where
  "new_SessionManager cfg_maxSessionFrames cfg_disappearThreshold cfg_minSessionFrames =
     \<lparr>sessions = [],
      maxSessionFrames = (case cfg_maxSessionFrames of Some v \<Rightarrow> v | None \<Rightarrow> 20),
      disappearThreshold = (case cfg_disappearThreshold of Some v \<Rightarrow> v | None \<Rightarrow> 5000),
      minSessionFrames = (case cfg_minSessionFrames of Some v \<Rightarrow> v | None \<Rightarrow> 3)\<rparr>"

text \<open>
  \<^verbatim>\<open>this.sessions.get\<close>, \<^verbatim>\<open>set\<close> and \<^verbatim>\<open>delete\<close>. A session object is changed in place in the
  source; the model puts the changed session back under its key, where it keeps its position.
\<close>

fun sessions_get :: "Session list \<Rightarrow> nat \<Rightarrow> Session option" where
  "sessions_get [] key = None"
| "sessions_get (x # xs) key = (if ses_trackId x = key then Some x else sessions_get xs key)"

fun sessions_set :: "Session list \<Rightarrow> Session \<Rightarrow> Session list" where
  "sessions_set [] session = [session]"
| "sessions_set (x # xs) session =
     (if ses_trackId x = ses_trackId session then session # xs else x # sessions_set xs session)"

definition sessions_delete :: "Session list \<Rightarrow> nat \<Rightarrow> Session list" where
  "sessions_delete xs key = filter (\<lambda>x. ses_trackId x \<noteq> key) xs"

definition createSession ::
  "SessionManager \<Rightarrow> Track \<Rightarrow> Detection \<Rightarrow> rat \<Rightarrow> CropImage option \<Rightarrow> SessionManager" where
  "createSession m track detection timeMs cropImage =
     m\<lparr>sessions := sessions_set (sessions m)
          \<lparr>ses_trackId = trk_id track, startMs = timeMs, endMs = timeMs,
           crops = (case cropImage of Some c \<Rightarrow> [c] | None \<Rightarrow> []),
           ses_status = SessionActive\<rparr>\<rparr>"

text \<open>
  \<^verbatim>\<open>finalizeSession\<close> returns the session, or \<^verbatim>\<open>null\<close> (\<open>None\<close>); the reason is only
  logged.
\<close>

definition finalizeSession ::
  "SessionManager \<Rightarrow> nat \<Rightarrow> string \<Rightarrow> SessionManager \<times> Session option" where
  "finalizeSession m trackKey reason =
     (case sessions_get (sessions m) trackKey of
        None \<Rightarrow> (m, None)
      | Some session \<Rightarrow>
          if ses_status session = SessionActive then
            (if of_nat (length (crops session)) < minSessionFrames m
             then (m\<lparr>sessions := sessions_delete (sessions m) trackKey\<rparr>, None)
             else
               let finalized = session\<lparr>ses_status := Finalized\<rparr>
               in (m\<lparr>sessions := sessions_set (sessions m) finalized\<rparr>, Some finalized))
          else (m, None))"

definition updateSession ::
  "SessionManager \<Rightarrow> nat \<Rightarrow> Track \<Rightarrow> Detection \<Rightarrow> rat \<Rightarrow> CropImage option \<Rightarrow> SessionManager" where
  "updateSession m trackKey track detection timeMs cropImage =
     (case sessions_get (sessions m) trackKey of
        None \<Rightarrow> m
      | Some session \<Rightarrow>
          let extended = session\<lparr>endMs := timeMs\<rparr>
          in (case cropImage of
                None \<Rightarrow> m\<lparr>sessions := sessions_set (sessions m) extended\<rparr>
              | Some c \<Rightarrow>
                  let pushed = extended\<lparr>crops := crops extended @ [c]\<rparr>;
                      m1 = m\<lparr>sessions := sessions_set (sessions m) pushed\<rparr>
                  in if of_nat (length (crops pushed)) \<ge> maxSessionFrames m
                     then fst (finalizeSession m1 trackKey ''max_frames_reached'')
                     else m1))"

text \<open>\<^verbatim>\<open>SessionManager.update\<close> (the tracker has an \<^verbatim>\<open>update\<close> of its own).\<close>

definition session_update ::
  "SessionManager \<Rightarrow> Track \<Rightarrow> Detection \<Rightarrow> rat \<Rightarrow> CropImage option \<Rightarrow> SessionManager" where
  "session_update m track detection timeMs cropImage =
     (case sessions_get (sessions m) (trk_id track) of
        None \<Rightarrow> createSession m track detection timeMs cropImage
      | Some _ \<Rightarrow> updateSession m (trk_id track) track detection timeMs cropImage)"

text \<open>\<^verbatim>\<open>handleTrackLost\<close>; the value of \<^verbatim>\<open>Date.now()\<close> is a parameter.\<close>

definition handleTrackLost :: "SessionManager \<Rightarrow> nat \<Rightarrow> rat \<Rightarrow> rat \<Rightarrow> SessionManager" where
  "handleTrackLost m trackKey lastSeenMs now =
     (case sessions_get (sessions m) trackKey of
        None \<Rightarrow> m
      | Some session \<Rightarrow>
          if ses_status session = SessionActive then
            (let timeSinceLastSeen = now - lastSeenMs
             in if timeSinceLastSeen \<ge> disappearThreshold m
                then fst (finalizeSession m trackKey ''track_lost'')
                else m)
          else m)"

definition getFinalizedSessions :: "SessionManager \<Rightarrow> Session list" where
  "getFinalizedSessions m = filter (\<lambda>s. ses_status s = Finalized) (sessions m)"

definition getSession :: "SessionManager \<Rightarrow> nat \<Rightarrow> Session option" where
  "getSession m trackKey = sessions_get (sessions m) trackKey"

section \<open>Deduplicator\<close>










section \<open>Validator\<close>

record ValidationRules =
  regions :: "jsstring list"
  letters :: "jsstring list"
  digits :: "jsstring list"

datatype validation_mode = Strict | Fallback

text \<open>
  The messages of the Validator, one constructor for each string of the source; a constructor
  carries the values the source puts into the template string.
\<close>

datatype message =
    EmptyOrNullPlateText
  | NoBengaliCharactersFound
  | PlateContainsNonBengali
  | ValidBanglaPlateFormat
  | StrictFormatNotRecognized
  | UsingDemoFallbackValidation
  | ProductionRequiresStrictFormat
  | FormatDoesNotMatchStandards
  | ExpectedThreeParts nat
  | InvalidRegion jsstring
  | LettersPartLength nat
  | InvalidLetterCharacter jsstring
  | DigitsPartLength nat
  | InvalidDigitCharacter jsstring
  | StrictValidationPassed
  | PlateLengthOutOfRange nat
  | InsufficientBengaliCharacters
  | LongPlatesShouldContainSeparators
  | DemoFallbackValidationPassed
  | FoundBengaliCharacters nat

datatype vehicle_type = PrivateVehicle | CommercialVehicle | GovernmentVehicle | UnknownVehicle

datatype plate_metadata =
    StrictMetadata jsstring jsstring vehicle_type
  | FallbackMetadata nat bool

record ValidationResult =
  valid :: bool
  mode :: validation_mode
  vr_plate :: jsstring
  reasons :: "message list"
  warnings :: "message list"
  metadata :: "plate_metadata option"

text \<open>What \<^verbatim>\<open>validateStrictFormat\<close> and \<^verbatim>\<open>validateFallbackFormat\<close> return.\<close>

record format_result =
  fr_valid :: bool
  fr_reasons :: "message list"
  fr_metadata :: "plate_metadata option"

record Validator =
  strictRules :: ValidationRules
  demoFallbackEnabled :: bool

text \<open>The default rules, as the UTF-16 code units of the Bengali strings of the source.\<close>

definition default_regions :: "jsstring list" where
  "default_regions =
     [[2466, 2494, 2453, 2494],
      [2458, 2463, 2509, 2463, 2455, 2509, 2480, 2494, 2478],
      [2454, 2497, 2482, 2472, 2494],
      [2480, 2494, 2460, 2486, 2494, 2489, 2496],
      [2476, 2480, 2495, 2486, 2494, 2482],
      [2488, 2495, 2482, 2503, 2463],
      [2480, 2434, 2474, 2497, 2480],
      [2478, 2479, 2492, 2478, 2472, 2488, 2495, 2434, 2489]]"

definition default_letters :: "jsstring list" where
  "default_letters =
     [[2488, 2454, 2496], [2476, 2479], [2479, 2494, 2479, 2492, 2480],
      [2466, 2494, 2453, 2494], [2458, 2463, 2509, 2463], [2454, 2497, 2482],
      [2480, 2494, 2460], [2476, 2480, 2495], [2488, 2495, 2482], [2480, 2434],
      [2478, 2479, 2492]]"

definition default_digits :: "jsstring list" where
  "default_digits =
     [[2534], [2535], [2536], [2537], [2538], [2539], [2540], [2541], [2542], [2543]]"

text \<open>
  The constructor: \<^verbatim>\<open>strictRules?.regions || [...]\<close> takes the default when the field is
  missing (an array, even an empty one, is truthy).
\<close>

definition new_Validator ::
  "jsstring list option \<Rightarrow> jsstring list option \<Rightarrow> jsstring list option \<Rightarrow> Validator" where
  "new_Validator cfg_regions cfg_letters cfg_digits =
     \<lparr>strictRules =
        \<lparr>regions = (case cfg_regions of Some r \<Rightarrow> r | None \<Rightarrow> default_regions),
         letters = (case cfg_letters of Some l \<Rightarrow> l | None \<Rightarrow> default_letters),
         digits = (case cfg_digits of Some d \<Rightarrow> d | None \<Rightarrow> default_digits)\<rparr>,
      demoFallbackEnabled = True\<rparr>"

definition setDemoFallback :: "Validator \<Rightarrow> bool \<Rightarrow> Validator" where
  "setDemoFallback v enabled = v\<lparr>demoFallbackEnabled := enabled\<rparr>"

text \<open>
  The code units \<^verbatim>\<open>String.prototype.trim\<close> removes at both ends: the white space and the line
  terminators of ECMAScript.
\<close>

definition is_js_whitespace :: "nat \<Rightarrow> bool" where
  "is_js_whitespace c =
     (c \<in> {9, 10, 11, 12, 13, 32, 160, 5760, 8232, 8233, 8239, 8287, 12288, 65279} \<or>
      (8192 \<le> c \<and> c \<le> 8202))"

definition trim :: "jsstring \<Rightarrow> jsstring" where
  "trim s = rev (dropWhile is_js_whitespace (rev (dropWhile is_js_whitespace s)))"

text \<open>\<^verbatim>\<open>s.includes(sub)\<close> and \<^verbatim>\<open>s.split(sep)\<close> for a separator of one code unit.\<close>

definition js_includes :: "jsstring \<Rightarrow> jsstring \<Rightarrow> bool" where
  "js_includes s sub = list_ex (\<lambda>i. take (length sub) (drop i s) = sub) [0..<Suc (length s)]"

fun js_split :: "nat \<Rightarrow> jsstring \<Rightarrow> jsstring list" where
  "js_split sep [] = [[]]"
| "js_split sep (c # cs) =
     (if c = sep then [] # js_split sep cs
      else (case js_split sep cs of
              [] \<Rightarrow> [[c]]
            | p # ps \<Rightarrow> (c # p) # ps))"

text \<open>
  \<^verbatim>\<open>for (const char of s)\<close> walks the code points: a high surrogate followed by a low one is
  one \<^verbatim>\<open>char\<close> of two code units.
\<close>

definition is_high_surrogate :: "nat \<Rightarrow> bool" where
  "is_high_surrogate c = (55296 \<le> c \<and> c \<le> 56319)"

definition is_low_surrogate :: "nat \<Rightarrow> bool" where
  "is_low_surrogate c = (56320 \<le> c \<and> c \<le> 57343)"

fun string_iterator :: "jsstring \<Rightarrow> jsstring list" where
  "string_iterator [] = []"
| "string_iterator [c] = [[c]]"
| "string_iterator (c # d # cs) =
     (if is_high_surrogate c \<and> is_low_surrogate d
      then [c, d] # string_iterator cs
      else [c] # string_iterator (d # cs))"

text \<open>The test of the regular expression for one code unit from 0x0980 to 0x09FF.\<close>

definition isBengaliText :: "jsstring \<Rightarrow> bool" where
  "isBengaliText s = list_ex (\<lambda>c. 2432 \<le> c \<and> c \<le> 2559) s"

text \<open>
  \<^verbatim>\<open>isBengaliLetter\<close> and \<^verbatim>\<open>isBengaliChar\<close> look at \<^verbatim>\<open>char.charCodeAt(0)\<close>; it is \<^verbatim>\<open>NaN\<close> for
  the empty string, for which every comparison is false.
\<close>

definition isBengaliLetter :: "jsstring \<Rightarrow> bool" where
  "isBengaliLetter char =
     (case char of
        [] \<Rightarrow> False
      | code # _ \<Rightarrow>
          (code \<ge> 2437 \<and> code \<le> 2489) \<or> (code \<ge> 2494 \<and> code \<le> 2508) \<or>
          (code \<ge> 2519 \<and> code \<le> 2524))"

definition isBengaliChar :: "jsstring \<Rightarrow> bool" where
  "isBengaliChar char =
     (case char of [] \<Rightarrow> False | code # _ \<Rightarrow> code \<ge> 2432 \<and> code \<le> 2559)"

definition inferVehicleType :: "jsstring \<Rightarrow> vehicle_type" where
  "inferVehicleType ls =
     (if js_includes ls [2488, 2454, 2496] then PrivateVehicle
      else if js_includes ls [2476, 2479] then CommercialVehicle
      else if js_includes ls [2479, 2494, 2479, 2492, 2480] then GovernmentVehicle
      else UnknownVehicle)"

text \<open>The two loops of the strict pass stop at the first character that fails.\<close>

definition check_letters :: "jsstring \<Rightarrow> message list" where
  "check_letters ls =
     (if length ls < 2 then [LettersPartLength (length ls)]
      else if length ls > 4 then [LettersPartLength (length ls)]
      else (case find (\<lambda>char. \<not> isBengaliLetter char) (string_iterator ls) of
              Some char \<Rightarrow> [InvalidLetterCharacter char]
            | None \<Rightarrow> []))"

definition check_digits :: "ValidationRules \<Rightarrow> jsstring \<Rightarrow> message list" where
  "check_digits rules ds =
     (if length ds < 3 then [DigitsPartLength (length ds)]
      else if length ds > 4 then [DigitsPartLength (length ds)]
      else (case find (\<lambda>char. \<not> List.member (digits rules) char) (string_iterator ds) of
              Some char \<Rightarrow> [InvalidDigitCharacter char]
            | None \<Rightarrow> []))"

definition validateStrictFormat :: "Validator \<Rightarrow> jsstring \<Rightarrow> format_result" where
  "validateStrictFormat v plate =
     (case js_split 45 plate of
        [region, ls, ds] \<Rightarrow>
          let rs = (if List.member (regions (strictRules v)) region then []
                    else [InvalidRegion region])
                   @ check_letters ls @ check_digits (strictRules v) ds
          in if length rs = 0
             then \<lparr>fr_valid = True, fr_reasons = [StrictValidationPassed],
                   fr_metadata = Some (StrictMetadata region ls (inferVehicleType ls))\<rparr>
             else \<lparr>fr_valid = False, fr_reasons = rs, fr_metadata = None\<rparr>
      | parts \<Rightarrow>
          \<lparr>fr_valid = False, fr_reasons = [ExpectedThreeParts (length parts)],
           fr_metadata = None\<rparr>)"

text \<open>
  \<^verbatim>\<open>validateFallbackFormat\<close>. \<^verbatim>\<open>plate.split('')\<close> gives the code units one by one. The
  message about the missing separators is pushed to \<^verbatim>\<open>reasons\<close>; the function has no list
  of warnings.
\<close>

definition validateFallbackFormat :: "jsstring \<Rightarrow> format_result" where
  "validateFallbackFormat plate =
     (if length plate < 3 then
        \<lparr>fr_valid = False, fr_reasons = [PlateLengthOutOfRange (length plate)], fr_metadata = None\<rparr>
      else if length plate > 20 then
        \<lparr>fr_valid = False, fr_reasons = [PlateLengthOutOfRange (length plate)], fr_metadata = None\<rparr>
      else
        let bengaliChars = filter (\<lambda>c. isBengaliChar [c]) plate
        in if length bengaliChars < 2 then
             \<lparr>fr_valid = False, fr_reasons = [InsufficientBengaliCharacters], fr_metadata = None\<rparr>
           else
             let hasSeparators = (if js_includes plate [45] then True else js_includes plate [32])
             in \<lparr>fr_valid = True,
                 fr_reasons =
                   (if hasSeparators then []
                    else if length plate > 10 then [LongPlatesShouldContainSeparators]
                    else [])
                   @ [DemoFallbackValidationPassed, FoundBengaliCharacters (length bengaliChars)],
                 fr_metadata = Some (FallbackMetadata (length bengaliChars) hasSeparators)\<rparr>)"

text \<open>
  \<^verbatim>\<open>validatePlate\<close>. For a string, \<^verbatim>\<open>!plate\<close> holds of the empty string only. The fallback pass
  runs only when the strict pass failed and \<^verbatim>\<open>demoFallbackEnabled\<close> is set.
\<close>

definition validatePlate :: "Validator \<Rightarrow> jsstring \<Rightarrow> ValidationResult" where
  "validatePlate v plate =
     (let result = \<lparr>valid = False, mode = Strict, vr_plate = plate, reasons = [], warnings = [],
                     metadata = None\<rparr>
      in if plate = [] then result\<lparr>reasons := [EmptyOrNullPlateText]\<rparr>
         else if length (trim plate) = 0 then result\<lparr>reasons := [EmptyOrNullPlateText]\<rparr>
         else
           let result1 =
                 (if isBengaliText plate then result
                  else result\<lparr>reasons := reasons result @ [NoBengaliCharactersFound],
                              warnings := warnings result @ [PlateContainsNonBengali]\<rparr>);
               strictResult = validateStrictFormat v plate
           in if fr_valid strictResult then
                result1\<lparr>valid := True, mode := Strict, reasons := [ValidBanglaPlateFormat],
                        metadata := fr_metadata strictResult\<rparr>
              else
                let failed = result1\<lparr>reasons := fr_reasons strictResult,
                                      warnings := [FormatDoesNotMatchStandards]\<rparr>
                in if demoFallbackEnabled v then
                     (let fallbackResult = validateFallbackFormat plate
                      in if fr_valid fallbackResult then
                           result1\<lparr>valid := True, mode := Fallback,
                                   reasons := fr_reasons fallbackResult,
                                   warnings := [StrictFormatNotRecognized,
                                                UsingDemoFallbackValidation,
                                                ProductionRequiresStrictFormat],
                                   metadata := fr_metadata fallbackResult\<rparr>
                         else failed)
                   else failed)"

section \<open>Example values\<close>

text \<open>
  Inputs for the concrete instances of the theorems below: a plate detection that carries no
  identity yet, a track that has not been matched since time 0, a tracker with two active
  tracks and a finished one, a crop, an event for one plate text, and a candidate whose text is
  one code unit.
\<close>

text \<open>
  The array literal of a box and the object literals of a detection and a track, with the
  numbers written as decimal literals.
\<close>

definition box :: "rat \<times> rat \<times> rat \<times> rat \<Rightarrow> BBoxArray" where
  "box b = (case b of (x1, y1, x2, y2) \<Rightarrow> (dbl x1, dbl y1, dbl x2, dbl y2))"

definition plate_detection :: "rat \<times> rat \<times> rat \<times> rat \<Rightarrow> rat \<Rightarrow> Detection" where
  "plate_detection b c = \<lparr>det_type = Plate, bbox = box b, conf = dbl c, trackId = None\<rparr>"

definition example_track ::
  "nat \<Rightarrow> track_status \<Rightarrow> rat \<times> rat \<times> rat \<times> rat \<Rightarrow> rat \<Rightarrow> Track" where
  "example_track i st b c =
     \<lparr>trk_id = i, status = st, startTime = dbl 0, lastSeen = dbl 0, detections = [],
      trk_bbox = box b, confidence = dbl c\<rparr>"

definition example_tracker :: TrackerSimple where
  "example_tracker =
     \<lparr>tracks = [example_track 1 Active (0, 0, 10, 10) (9 / 10),
                example_track 2 Active (2, 0, 12, 10) (4 / 5),
                example_track 3 Finished (3, 0, 13, 10) (1 / 2)],
      nextTrackId = 4, iouThreshold = dbl (3 / 10), maxLostFrames = dbl 10,
      minDetections = dbl 3, frameCount = 7\<rparr>"

definition example_crop :: "nat \<Rightarrow> rat \<Rightarrow> CropImage" where
  "example_crop i t =
     \<lparr>cropId = [48 + i], crop_timeMs = t, imageData = [], crop_bbox = box (0, 0, 10, 10),
      quality = None\<rparr>"

text \<open>A new SessionManager after \<open>n\<close> updates for track 1, at the times 0, 100, 200, ...,
  each with a crop.\<close>

fun example_manager :: "nat \<Rightarrow> SessionManager" where
  "example_manager 0 = new_SessionManager None None None"
| "example_manager (Suc n) =
     session_update (example_manager n) (example_track 1 Active (0, 0, 10, 10) (9 / 10))
       (plate_detection (0, 0, 10, 10) (9 / 10)) (100 * of_nat n)
       (Some (example_crop (Suc n) (100 * of_nat n)))"


definition example_candidate :: "nat \<Rightarrow> rat \<Rightarrow> OCRCandidate" where
  "example_candidate t c = \<lparr>cand_text = [t], cand_conf = c\<rparr>"

section \<open>Voter: properties\<close>

text \<open>
  C9. A vote over no crops, or over crops that all have an empty candidate list, returns the
  empty result: empty winner text, confidence 0, method \<open>frequency\<close>, an empty tally and an
  empty candidate list. The function is total, so no error is raised.
\<close>

theorem vote_empty_input:
  "concat candidates = [] \<Longrightarrow>
     vote candidates =
       \<lparr>winner = [], vr_confidence = 0, votes = Map.empty, vote_method = Frequency,
        vr_candidates = []\<rparr>"
  by (simp add: vote_def createEmptyResult_def)

theorem vote_empty_input_witness:
  "concat [[], [] :: OCRCandidate list] = [] \<and>
   vote [[], []] =
     \<lparr>winner = [], vr_confidence = 0, votes = Map.empty, vote_method = Frequency,
      vr_candidates = []\<rparr> \<and>
   vote [] =
     \<lparr>winner = [], vr_confidence = 0, votes = Map.empty, vote_method = Frequency,
      vr_candidates = []\<rparr>"
  using vote_empty_input [of "[[], []]"] vote_empty_input [of "[]"] by simp

text \<open>
  C1. The three-level tie-break of \<open>vote\<close>, at an input where the last level goes wrong.
  Three texts A, B and C (code units 65, 66, 67) are each read twice, in two crops. A and B
  have the confidences 1/2 and 1/2 (mean 1/2, maximum 1/2); C has 1/4 and 5/8 (mean 7/16,
  maximum 5/8). The counts are tied, and the highest mean is tied between A and B, so the
  third level is reached. There the source sorts all of \<^verbatim>\<open>tiedCandidates\<close> by their maximum,
  not only the texts that share the highest mean, and C wins with the method \<open>tiebreak\<close>
  and the confidence 7/16, though its mean is below that of A and of B.
\<close>

theorem vote_tiebreak_prefers_lower_mean:
  "vr_candidates
     (vote [[example_candidate 65 (1 / 2), example_candidate 66 (1 / 2), example_candidate 67 (1 /
         4)],
            [example_candidate 65 (1 / 2), example_candidate 66 (1 / 2), example_candidate 67 (5 /
                8)]]) =
     [\<lparr>vc_text = [65], vc_count = 2, avgConfidence = 1 / 2, maxConfidence = 1 / 2\<rparr>,
      \<lparr>vc_text = [66], vc_count = 2, avgConfidence = 1 / 2, maxConfidence = 1 / 2\<rparr>,
      \<lparr>vc_text = [67], vc_count = 2, avgConfidence = 7 / 16, maxConfidence = 5 / 8\<rparr>] \<and>
   winner
     (vote [[example_candidate 65 (1 / 2), example_candidate 66 (1 / 2), example_candidate 67 (1 /
         4)],
            [example_candidate 65 (1 / 2), example_candidate 66 (1 / 2), example_candidate 67 (5 /
                8)]]) = [67] \<and>
   vote_method
     (vote [[example_candidate 65 (1 / 2), example_candidate 66 (1 / 2), example_candidate 67 (1 /
         4)],
            [example_candidate 65 (1 / 2), example_candidate 66 (1 / 2), example_candidate 67 (5 /
                8)]]) = Tiebreak \<and>
   vr_confidence
     (vote [[example_candidate 65 (1 / 2), example_candidate 66 (1 / 2), example_candidate 67 (1 /
         4)],
            [example_candidate 65 (1 / 2), example_candidate 66 (1 / 2), example_candidate 67 (5 /
                8)]]) = 7 / 16"
  by (simp add: vote_def textGroups_def to_vote_candidate_def reduce_sum_def sort_desc_def
      choose_winner_def example_candidate_def)

section \<open>TrackerSimple: properties\<close>

subsection \<open>Comparisons of doubles\<close>

lemma d_gt_not_NaN: "d_gt a b \<Longrightarrow> a \<noteq> NaN \<and> b \<noteq> NaN"
  by (simp add: d_gt_def d_lt_def)

lemma not_d_ge_iff: "\<not> d_ge a b \<longleftrightarrow> a = NaN \<or> b = NaN \<or> d_gt b a"
  by (auto simp: d_ge_def d_gt_def)

lemma set_insert_by: "set (insert_by cmp x ys) = insert x (set ys)"
  by (induction ys) auto

lemma set_array_sort: "set (array_sort cmp xs) = set xs"
  by (induction xs) (simp_all add: array_sort_def set_insert_by)

lemma length_insert_by: "length (insert_by cmp x ys) = Suc (length ys)"
  by (induction ys) auto

lemma length_array_sort: "length (array_sort cmp xs) = length xs"
  by (induction xs) (simp_all add: array_sort_def length_insert_by)

subsection \<open>The search for the best track\<close>

lemma foldl_consider_keep:
  "\<forall>q\<in>set post. status q \<noteq> Finished \<longrightarrow> \<not> d_gt (calculateIOU dbox (trk_bbox q)) (snd acc) \<Longrightarrow>
     foldl (consider_track thr dbox) acc post = acc"
  by (induction post arbitrary: acc) (auto simp: consider_track_def Let_def)

lemma foldl_consider_below:
  "\<forall>p\<in>set pre. status p \<noteq> Finished \<longrightarrow> \<not> d_ge (calculateIOU dbox (trk_bbox p)) m \<Longrightarrow>
     d_gt m (snd acc) \<Longrightarrow> d_gt m (snd (foldl (consider_track thr dbox) acc pre))"
proof (induction pre arbitrary: acc)
  case Nil
  then show ?case by simp
next
  case (Cons p pre)
  have "d_gt m (snd (consider_track thr dbox acc p))"
  proof (cases "status p \<noteq> Finished \<and> d_gt (calculateIOU dbox (trk_bbox p)) thr \<and>
                 d_gt (calculateIOU dbox (trk_bbox p)) (snd acc)")
    case True
    with Cons.prems(1) have "\<not> d_ge (calculateIOU dbox (trk_bbox p)) m" by simp
    moreover from True have "calculateIOU dbox (trk_bbox p) \<noteq> NaN"
      using d_gt_not_NaN by blast
    moreover from Cons.prems(2) have "m \<noteq> NaN"
      using d_gt_not_NaN by blast
    ultimately have "d_gt m (calculateIOU dbox (trk_bbox p))"
      by (simp add: not_d_ge_iff)
    with True show ?thesis by (simp add: consider_track_def Let_def)
  next
    case False
    with Cons.prems(2) show ?thesis by (auto simp: consider_track_def Let_def)
  qed
  with Cons.IH [of "consider_track thr dbox acc p"] Cons.prems(1) show ?case by simp
qed

lemma foldl_consider_none:
  "\<forall>q\<in>set ts. status q \<noteq> Finished \<longrightarrow> \<not> d_gt (calculateIOU dbox (trk_bbox q)) thr \<Longrightarrow>
     foldl (consider_track thr dbox) acc ts = acc"
  by (induction ts arbitrary: acc) (auto simp: consider_track_def Let_def)

lemma foldl_consider_some:
  "fst (foldl (consider_track thr dbox) acc ts) = Some b \<Longrightarrow>
     fst acc = Some b \<or> (b \<in> set ts \<and> status b \<noteq> Finished)"
proof (induction ts arbitrary: acc)
  case Nil
  then show ?case by simp
next
  case (Cons t ts)
  from Cons.IH [of "consider_track thr dbox acc t"] Cons.prems
  show ?case by (auto simp: consider_track_def Let_def split: if_splits)
qed

lemma findBestMatch_found:
  assumes "tracks s = pre @ t # post"
    and "status t \<noteq> Finished"
    and "d_gt (calculateIOU (bbox d) (trk_bbox t)) (iouThreshold s)"
    and "d_gt (calculateIOU (bbox d) (trk_bbox t)) (Finite 0 0)"
    and "\<forall>p\<in>set pre. status p \<noteq> Finished \<longrightarrow>
           \<not> d_ge (calculateIOU (bbox d) (trk_bbox p)) (calculateIOU (bbox d) (trk_bbox t))"
    and "\<forall>q\<in>set post. status q \<noteq> Finished \<longrightarrow>
           \<not> d_gt (calculateIOU (bbox d) (trk_bbox q)) (calculateIOU (bbox d) (trk_bbox t))"
  shows "findBestMatch s d = (Some t, calculateIOU (bbox d) (trk_bbox t))"
proof -
  let ?f = "consider_track (iouThreshold s) (bbox d)"
  let ?m = "calculateIOU (bbox d) (trk_bbox t)"
  have below: "d_gt ?m (snd (foldl ?f (None, Finite 0 0) pre))"
    using assms(4,5) by (intro foldl_consider_below) auto
  have step: "?f (foldl ?f (None, Finite 0 0) pre) t = (Some t, ?m)"
    using below assms(2,3) by (simp add: consider_track_def Let_def)
  have "foldl ?f (Some t, ?m) post = (Some t, ?m)"
    using assms(6) by (intro foldl_consider_keep) auto
  with step show ?thesis
    by (simp add: findBestMatch_def assms(1))
qed

lemma findBestMatch_none:
  assumes "\<forall>q\<in>set (tracks s). status q \<noteq> Finished \<longrightarrow>
             \<not> d_gt (calculateIOU (bbox d) (trk_bbox q)) (iouThreshold s)"
  shows "findBestMatch s d = (None, Finite 0 0)"
  using assms by (simp add: findBestMatch_def foldl_consider_none)

lemma findBestMatch_some:
  "fst (findBestMatch s d) = Some b \<Longrightarrow> b \<in> set (tracks s) \<and> status b \<noteq> Finished"
  using foldl_consider_some [of "iouThreshold s" "bbox d" "(None, Finite 0 0)" "tracks s" b]
  by (simp add: findBestMatch_def)

subsection \<open>One turn of the matching loop\<close>

lemma map_at_key:
  "distinct (map trk_id (pre @ t # post)) \<Longrightarrow>
     map (\<lambda>x. if trk_id x = trk_id t then f x else x) (pre @ t # post) = pre @ f t # post"
proof -
  assume d: "distinct (map trk_id (pre @ t # post))"
  have "\<And>x. x \<in> set pre \<Longrightarrow> trk_id x \<noteq> trk_id t"
    using d by (auto simp: image_iff)
  then have pre: "map (\<lambda>x. if trk_id x = trk_id t then f x else x) pre = pre"
    by (intro map_idI) simp
  have "\<And>x. x \<in> set post \<Longrightarrow> trk_id x \<noteq> trk_id t"
    using d by (auto simp: image_iff)
  then have post: "map (\<lambda>x. if trk_id x = trk_id t then f x else x) post = post"
    by (intro map_idI) simp
  show ?thesis by (simp add: pre post)
qed

lemma matchStep_matched:
  assumes "distinct (map trk_id (tracks s))"
    and "det_type d = Plate"
    and "tracks s = pre @ t # post"
    and "status t \<noteq> Finished"
    and "d_gt (calculateIOU (bbox d) (trk_bbox t)) (iouThreshold s)"
    and "d_gt (calculateIOU (bbox d) (trk_bbox t)) (Finite 0 0)"
    and "\<forall>p\<in>set pre. status p \<noteq> Finished \<longrightarrow>
           \<not> d_ge (calculateIOU (bbox d) (trk_bbox p)) (calculateIOU (bbox d) (trk_bbox t))"
    and "\<forall>q\<in>set post. status q \<noteq> Finished \<longrightarrow>
           \<not> d_gt (calculateIOU (bbox d) (trk_bbox q)) (calculateIOU (bbox d) (trk_bbox t))"
  shows "matchStep s timeMs d =
           (s\<lparr>tracks := pre @ updateTrack t (d\<lparr>trackId := Some (trk_id t)\<rparr>) timeMs # post\<rparr>,
            d\<lparr>trackId := Some (trk_id t)\<rparr>, False)"
proof -
  have best: "fst (findBestMatch s d) = Some t"
    using findBestMatch_found [OF assms(3-8)] by simp
  have "map (\<lambda>x. if trk_id x = trk_id t
                then updateTrack x (d\<lparr>trackId := Some (trk_id t)\<rparr>) timeMs else x) (tracks s) =
        pre @ updateTrack t (d\<lparr>trackId := Some (trk_id t)\<rparr>) timeMs # post"
    using assms(1) unfolding assms(3) by (rule map_at_key)
  with best assms(2) show ?thesis
    by (simp add: matchStep_def Let_def)
qed

lemma matchStep_unmatched:
  assumes "det_type d = Plate"
    and "\<forall>q\<in>set (tracks s). status q \<noteq> Finished \<longrightarrow>
           \<not> d_gt (calculateIOU (bbox d) (trk_bbox q)) (iouThreshold s)"
  shows "matchStep s timeMs d = (s, d, True)"
  using assms(1) findBestMatch_none [OF assms(2)] by (simp add: matchStep_def)

lemma trk_id_updateTrack [simp]: "trk_id (updateTrack t d timeMs) = trk_id t"
  by (simp add: updateTrack_def)

lemma matchStep_frame:
  "\<exists>ts. fst (matchStep s timeMs d) = s\<lparr>tracks := ts\<rparr> \<and> map trk_id ts = map trk_id (tracks s)"
proof (cases "det_type d = Plate \<and> fst (findBestMatch s d) \<noteq> None")
  case True
  then obtain b where "fst (findBestMatch s d) = Some b" by auto
  with True show ?thesis
    by (auto simp: matchStep_def Let_def o_def intro!: exI [where x = "map f xs" for f xs])
next
  case False
  then have "fst (matchStep s timeMs d) = s"
    by (auto simp: matchStep_def split: option.splits)
  then show ?thesis
    by (intro exI [where x = "tracks s"]) simp
qed

lemma matchStep_keeps:
  assumes "status t = Finished"
    and "\<forall>x\<in>set (tracks s). trk_id x = trk_id t \<longrightarrow> x = t"
  shows "\<forall>x\<in>set (tracks (fst (matchStep s timeMs d))). trk_id x = trk_id t \<longrightarrow> x = t"
proof (cases "det_type d = Plate")
  case False
  then show ?thesis using assms(2) by (simp add: matchStep_def)
next
  case True
  show ?thesis
  proof (cases "fst (findBestMatch s d)")
    case None
    with True show ?thesis using assms(2) by (simp add: matchStep_def)
  next
    case (Some b)
    from findBestMatch_some [OF Some] have b: "b \<in> set (tracks s)" "status b \<noteq> Finished"
      by simp_all
    with assms have "trk_id b \<noteq> trk_id t" by auto
    with True Some assms(2) show ?thesis
      by (auto simp: matchStep_def Let_def)
  qed
qed

lemma matchStep_stamp:
  assumes "status t = Finished"
    and "\<forall>x\<in>set (tracks s). trk_id x = trk_id t \<longrightarrow> x = t"
    and "det_type d = Plate"
    and "matchStep s timeMs d = (s1, d1, False)"
  shows "trackId d1 \<noteq> Some (trk_id t)"
proof (cases "fst (findBestMatch s d)")
  case None
  with assms(3,4) show ?thesis by (simp add: matchStep_def)
next
  case (Some b)
  from findBestMatch_some [OF Some] have "b \<in> set (tracks s)" "status b \<noteq> Finished"
    by simp_all
  with assms(1,2) have "trk_id b \<noteq> trk_id t" by auto
  with Some assms(3,4) show ?thesis
    by (auto simp: matchStep_def Let_def)
qed

lemma matchStep_det_type:
  "matchStep s timeMs d = (s1, d1, u) \<Longrightarrow> det_type d1 = det_type d \<and> bbox d1 = bbox d \<and> conf d1 = conf
      d"
  by (auto simp: matchStep_def Let_def split: if_splits option.splits)

lemma matchStep_unmatched_plate:
  "matchStep s timeMs d = (s1, d1, True) \<Longrightarrow> det_type d = Plate \<and> d1 = d \<and> s1 = s"
  by (auto simp: matchStep_def Let_def split: if_splits option.splits)

subsection \<open>The two loops over the detections\<close>

lemma matchLoop_append:
  "matchLoop s timeMs (xs @ ys) =
     (case matchLoop s timeMs xs of
        (s1, r1) \<Rightarrow> (case matchLoop s1 timeMs ys of (s2, r2) \<Rightarrow> (s2, r1 @ r2)))"
  by (induction xs arbitrary: s) (auto split: prod.splits)

lemma matchLoop_length: "length (snd (matchLoop s timeMs ds)) = length ds"
  by (induction ds arbitrary: s) (simp_all add: split_beta)

lemma matchLoop_frame:
  "\<exists>ts. fst (matchLoop s timeMs ds) = s\<lparr>tracks := ts\<rparr> \<and> map trk_id ts = map trk_id (tracks s)"
proof (induction ds arbitrary: s)
  case Nil
  show ?case by (intro exI [where x = "tracks s"]) simp
next
  case (Cons d ds)
  obtain s1 d1 u where step: "matchStep s timeMs d = (s1, d1, u)"
    by (cases "matchStep s timeMs d") auto
  from matchStep_frame [of s timeMs d] step
  obtain ts1 where s1: "s1 = s\<lparr>tracks := ts1\<rparr>" "map trk_id ts1 = map trk_id (tracks s)"
    by auto
  from Cons.IH [of s1]
  obtain ts2 where s2: "fst (matchLoop s1 timeMs ds) = s1\<lparr>tracks := ts2\<rparr>"
    "map trk_id ts2 = map trk_id (tracks s1)"
    by auto
  show ?case
    using step s1 s2 by (intro exI [where x = ts2]) (auto split: prod.splits)
qed

lemma matchLoop_keeps:
  assumes "status t = Finished"
    and "\<forall>x\<in>set (tracks s). trk_id x = trk_id t \<longrightarrow> x = t"
  shows "\<forall>x\<in>set (tracks (fst (matchLoop s timeMs ds))). trk_id x = trk_id t \<longrightarrow> x = t"
  using assms(2)
proof (induction ds arbitrary: s)
  case Nil
  then show ?case by simp
next
  case (Cons d ds)
  obtain s1 d1 u where step: "matchStep s timeMs d = (s1, d1, u)"
    by (cases "matchStep s timeMs d") auto
  from matchStep_keeps [OF assms(1) Cons.prems, of timeMs d] step
  have "\<forall>x\<in>set (tracks s1). trk_id x = trk_id t \<longrightarrow> x = t" by simp
  from Cons.IH [OF this] step show ?case
    by (simp split: prod.splits)
qed

lemma matchLoop_stamps:
  assumes "status t = Finished"
    and "\<forall>x\<in>set (tracks s). trk_id x = trk_id t \<longrightarrow> x = t"
  shows "\<forall>(d1, u)\<in>set (snd (matchLoop s timeMs ds)).
           det_type d1 = Plate \<longrightarrow> \<not> u \<longrightarrow> trackId d1 \<noteq> Some (trk_id t)"
  using assms(2)
proof (induction ds arbitrary: s)
  case Nil
  then show ?case by simp
next
  case (Cons d ds)
  obtain s1 d1 u where step: "matchStep s timeMs d = (s1, d1, u)"
    by (cases "matchStep s timeMs d") auto
  from matchStep_keeps [OF assms(1) Cons.prems, of timeMs d] step
  have k1: "\<forall>x\<in>set (tracks s1). trk_id x = trk_id t \<longrightarrow> x = t" by simp
  have here: "det_type d1 = Plate \<Longrightarrow> \<not> u \<Longrightarrow> trackId d1 \<noteq> Some (trk_id t)"
    using matchStep_stamp [OF assms(1) Cons.prems, of d timeMs s1 d1] step
      matchStep_det_type [OF step] by auto
  from Cons.IH [OF k1] here step show ?case
    by (auto split: prod.splits)
qed

lemma tracks_set_fresh:
  "trk_id track \<notin> trk_id ` set xs \<Longrightarrow> tracks_set xs track = xs @ [track]"
  by (induction xs) auto

lemma createTrack_inv:
  assumes "tracker_inv s"
  shows "createTrack s d timeMs =
           (s\<lparr>tracks := tracks s @
                 [\<lparr>trk_id = nextTrackId s, status = Active, startTime = timeMs,
                   lastSeen = timeMs, detections = [d], trk_bbox = bbox d,
                   confidence = conf d\<rparr>],
               nextTrackId := nextTrackId s + 1\<rparr>,
            \<lparr>trk_id = nextTrackId s, status = Active, startTime = timeMs,
              lastSeen = timeMs, detections = [d], trk_bbox = bbox d, confidence = conf d\<rparr>)"
proof -
  have "nextTrackId s \<notin> trk_id ` set (tracks s)"
    using assms by (auto simp: tracker_inv_def list_all_iff)
  then show ?thesis
    by (simp add: createTrack_def Let_def tracks_set_fresh)
qed

lemma createTrack_preserves_inv:
  assumes "tracker_inv s"
  shows "tracker_inv (fst (createTrack s d timeMs))"
  using assms unfolding createTrack_inv [OF assms]
  by (auto simp: tracker_inv_def list_all_iff)

lemma createLoop_append:
  "createLoop s timeMs (xs @ ys) =
     (case createLoop s timeMs xs of
        (s1, r1) \<Rightarrow> (case createLoop s1 timeMs ys of (s2, r2) \<Rightarrow> (s2, r1 @ r2)))"
  by (induction s timeMs xs rule: createLoop.induct) (auto split: prod.splits)

lemma createLoop_length: "length (snd (createLoop s timeMs ms)) = length ms"
  by (induction ms arbitrary: s) (auto simp: split_beta)

lemma createLoop_props:
  assumes "tracker_inv s"
  shows "tracker_inv (fst (createLoop s timeMs ms)) \<and>
         nextTrackId (fst (createLoop s timeMs ms)) = nextTrackId s + length (filter snd ms) \<and>
         (\<exists>new. fst (createLoop s timeMs ms) =
                  s\<lparr>tracks := tracks s @ new,
                    nextTrackId := nextTrackId s + length (filter snd ms)\<rparr> \<and>
                (\<forall>x\<in>set new. nextTrackId s \<le> trk_id x \<and> status x = Active))"
  using assms
proof (induction ms arbitrary: s)
  case Nil
  then show ?case by (auto intro: exI [where x = "[]"])
next
  case (Cons m ms)
  obtain d u where m: "m = (d, u)" by (cases m) auto
  show ?case
  proof (cases u)
    case False
    with Cons.IH [OF Cons.prems] m show ?thesis
      by (auto split: prod.splits)
  next
    case True
    let ?d = "d\<lparr>trackId := Some (nextTrackId s)\<rparr>"
    let ?t = "\<lparr>trk_id = nextTrackId s, status = Active, startTime = timeMs,
               lastSeen = timeMs, detections = [?d], trk_bbox = bbox ?d, confidence = conf ?d\<rparr>"
    let ?s1 = "s\<lparr>tracks := tracks s @ [?t], nextTrackId := nextTrackId s + 1\<rparr>"
    have ct: "createTrack s ?d timeMs = (?s1, ?t)"
      by (rule createTrack_inv [OF Cons.prems])
    have inv1: "tracker_inv ?s1"
      using createTrack_preserves_inv [OF Cons.prems, of ?d timeMs] ct by simp
    from Cons.IH [OF inv1]
    obtain new where new: "tracker_inv (fst (createLoop ?s1 timeMs ms))"
      "nextTrackId (fst (createLoop ?s1 timeMs ms)) = nextTrackId ?s1 + length (filter snd ms)"
      "fst (createLoop ?s1 timeMs ms) =
         ?s1\<lparr>tracks := tracks ?s1 @ new,
              nextTrackId := nextTrackId ?s1 + length (filter snd ms)\<rparr>"
      "\<forall>x\<in>set new. nextTrackId ?s1 \<le> trk_id x \<and> status x = Active"
      by blast
    have eq: "fst (createLoop s timeMs (m # ms)) = fst (createLoop ?s1 timeMs ms)"
      using m True ct by (simp split: prod.splits)
    have ge: "\<forall>x\<in>set (?t # new). nextTrackId s \<le> trk_id x \<and> status x = Active"
      using new(4) by (auto dest: Suc_leD)
    show ?thesis
      unfolding eq using new(1-3) ge
      by (intro conjI exI [where x = "?t # new"]) (simp_all add: m True)
  qed
qed

lemma createTrack_fields:
  "trk_id (snd (createTrack s d timeMs)) = nextTrackId s"
  "nextTrackId (fst (createTrack s d timeMs)) = Suc (nextTrackId s)"
  by (simp_all add: createTrack_def Let_def)

lemma createLoop_stamps:
  assumes "k < nextTrackId s"
    and "\<forall>(d, u)\<in>set ms. det_type d = Plate \<longrightarrow> \<not> u \<longrightarrow> trackId d \<noteq> Some k"
  shows "\<forall>d\<in>set (snd (createLoop s timeMs ms)). det_type d = Plate \<longrightarrow> trackId d \<noteq> Some k"
  using assms
proof (induction ms arbitrary: s)
  case Nil
  then show ?case by simp
next
  case (Cons m ms)
  obtain d u where m: "m = (d, u)" by (cases m) auto
  show ?case
  proof (cases u)
    case False
    with Cons.IH [of s] Cons.prems m show ?thesis
      by (auto simp: split_beta)
  next
    case True
    let ?s1 = "fst (createTrack s (d\<lparr>trackId := Some (nextTrackId s)\<rparr>) timeMs)"
    have "k < nextTrackId ?s1"
      using Cons.prems(1) by (simp add: createTrack_fields)
    from Cons.IH [OF this] Cons.prems(2)
    have "\<forall>d\<in>set (snd (createLoop ?s1 timeMs ms)). det_type d = Plate \<longrightarrow> trackId d \<noteq> Some k"
      by simp
    with True m Cons.prems(1) show ?thesis
      by (auto simp: split_beta createTrack_fields)
  qed
qed

lemma createLoop_at:
  assumes "tracker_inv s"
  shows "snd (createLoop s timeMs (m1 @ (d, True) # m2)) ! length m1 =
           d\<lparr>trackId := Some (nextTrackId s + length (filter snd m1))\<rparr> \<and>
         \<lparr>trk_id = nextTrackId s + length (filter snd m1), status = Active, startTime = timeMs,
           lastSeen = timeMs,
           detections = [d\<lparr>trackId := Some (nextTrackId s + length (filter snd m1))\<rparr>],
           trk_bbox = bbox d, confidence = conf d\<rparr>
           \<in> set (tracks (fst (createLoop s timeMs (m1 @ (d, True) # m2))))"
proof -
  let ?s1 = "fst (createLoop s timeMs m1)"
  let ?n = "nextTrackId s + length (filter snd m1)"
  let ?d = "d\<lparr>trackId := Some ?n\<rparr>"
  let ?t = "\<lparr>trk_id = ?n, status = Active, startTime = timeMs, lastSeen = timeMs,
             detections = [?d], trk_bbox = bbox d, confidence = conf d\<rparr>"
  let ?s2 = "?s1\<lparr>tracks := tracks ?s1 @ [?t], nextTrackId := nextTrackId ?s1 + 1\<rparr>"
  from createLoop_props [OF assms, of timeMs m1]
  have inv1: "tracker_inv ?s1" and n1: "nextTrackId ?s1 = ?n" by simp_all
  have ct: "createTrack ?s1 (d\<lparr>trackId := Some (nextTrackId ?s1)\<rparr>) timeMs = (?s2, ?t)"
    unfolding n1 using createTrack_inv [OF inv1, of ?d timeMs] n1 by simp
  have inv2: "tracker_inv ?s2"
    using createTrack_preserves_inv [OF inv1, of "d\<lparr>trackId := Some (nextTrackId ?s1)\<rparr>" timeMs] ct
    by simp
  from createLoop_props [OF inv2, of timeMs m2]
  obtain new where "fst (createLoop ?s2 timeMs m2) =
      ?s2\<lparr>tracks := tracks ?s2 @ new, nextTrackId := nextTrackId ?s2 + length (filter snd m2)\<rparr>"
    by blast
  then have mem: "?t \<in> set (tracks (fst (createLoop ?s2 timeMs m2)))" by simp
  have step: "createLoop ?s1 timeMs ((d, True) # m2) =
      (fst (createLoop ?s2 timeMs m2), ?d # snd (createLoop ?s2 timeMs m2))"
    by (simp only: createLoop.simps if_True ct prod.case fst_conv snd_conv Track.simps split_beta)
  have whole: "createLoop s timeMs (m1 @ (d, True) # m2) =
      (fst (createLoop ?s2 timeMs m2),
       snd (createLoop s timeMs m1) @ ?d # snd (createLoop ?s2 timeMs m2))"
    by (simp add: createLoop_append step split_beta del: createLoop.simps)
  have "length (snd (createLoop s timeMs m1)) = length m1"
    by (rule createLoop_length)
  then show ?thesis
    using mem by (simp add: whole nth_append)
qed

subsection \<open>Lost and finished tracks\<close>

lemma foldl_tracks_delete:
  "foldl tracks_delete ts ks = filter (\<lambda>t. trk_id t \<notin> set ks) ts"
  by (induction ks arbitrary: ts) (auto simp: tracks_delete_def intro: filter_cong)

lemma finish_if_lost_simps:
  "trk_id (finish_if_lost m timeMs x) = trk_id x"
  "status x \<noteq> Lost \<Longrightarrow> finish_if_lost m timeMs x = x"
  by (simp_all add: finish_if_lost_def Let_def)

lemma handleLost_form:
  "\<exists>D. handleLostTracks s timeMs =
          s\<lparr>tracks := filter (\<lambda>t. trk_id t \<notin> D)
                         (map (finish_if_lost (maxLostFrames s) timeMs) (tracks s))\<rparr> \<and>
       D \<subseteq> trk_id ` {x \<in> set (map (finish_if_lost (maxLostFrames s) timeMs) (tracks s)).
                        status x = Finished}"
proof -
  let ?ts = "map (finish_if_lost (maxLostFrames s) timeMs) (tracks s)"
  let ?fin = "array_sort (\<lambda>a b. d_sub (lastSeen b) (lastSeen a))
                (filter (\<lambda>t. status t = Finished) ?ts)"
  show ?thesis
  proof (cases "length ?fin > 10")
    case True
    have "set (drop 10 ?fin) \<subseteq> {x \<in> set ?ts. status x = Finished}"
      using set_drop_subset [of 10 ?fin] by (auto simp: set_array_sort)
    then have "set (map trk_id (drop 10 ?fin)) \<subseteq> trk_id ` {x \<in> set ?ts. status x = Finished}"
      by auto
    moreover have "handleLostTracks s timeMs =
        s\<lparr>tracks := filter (\<lambda>t. trk_id t \<notin> set (map trk_id (drop 10 ?fin))) ?ts\<rparr>"
      using True by (simp add: handleLostTracks_def Let_def foldl_tracks_delete)
    ultimately show ?thesis by blast
  next
    case False
    then have "handleLostTracks s timeMs = s\<lparr>tracks := filter (\<lambda>t. trk_id t \<notin> {}) ?ts\<rparr>"
      by (simp add: handleLostTracks_def Let_def)
    then show ?thesis by blast
  qed
qed

lemma handleLost_inv:
  assumes "tracker_inv s"
  shows "tracker_inv (handleLostTracks s timeMs) \<and>
         nextTrackId (handleLostTracks s timeMs) = nextTrackId s"
proof -
  from handleLost_form [of s timeMs] obtain D where
    D: "handleLostTracks s timeMs =
          s\<lparr>tracks := filter (\<lambda>t. trk_id t \<notin> D)
                         (map (finish_if_lost (maxLostFrames s) timeMs) (tracks s))\<rparr>"
    by blast
  have "distinct (map trk_id (map (finish_if_lost (maxLostFrames s) timeMs) (tracks s)))"
    using assms by (simp add: tracker_inv_def finish_if_lost_simps o_def)
  then have "distinct (map trk_id (filter (\<lambda>t. trk_id t \<notin> D)
      (map (finish_if_lost (maxLostFrames s) timeMs) (tracks s))))"
    by (rule distinct_map_filter)
  moreover have "list_all (\<lambda>t. trk_id t < nextTrackId s) (filter (\<lambda>t. trk_id t \<notin> D)
      (map (finish_if_lost (maxLostFrames s) timeMs) (tracks s)))"
    using assms by (auto simp: tracker_inv_def list_all_iff finish_if_lost_simps)
  ultimately show ?thesis
    unfolding D by (simp add: tracker_inv_def)
qed

lemma handleLost_keeps:
  assumes "status t = Finished"
    and "\<forall>x\<in>set (tracks s). trk_id x = trk_id t \<longrightarrow> x = t"
  shows "\<forall>x\<in>set (tracks (handleLostTracks s timeMs)). trk_id x = trk_id t \<longrightarrow> x = t"
proof -
  from handleLost_form [of s timeMs] obtain D where
    D: "handleLostTracks s timeMs =
          s\<lparr>tracks := filter (\<lambda>t. trk_id t \<notin> D)
                         (map (finish_if_lost (maxLostFrames s) timeMs) (tracks s))\<rparr>"
    by blast
  show ?thesis
  proof (intro ballI impI)
    fix x
    assume x: "x \<in> set (tracks (handleLostTracks s timeMs))" and id: "trk_id x = trk_id t"
    from x obtain y where y: "y \<in> set (tracks s)" "x = finish_if_lost (maxLostFrames s) timeMs y"
      unfolding D by auto
    with id have "trk_id y = trk_id t" by (simp add: finish_if_lost_simps)
    with assms(2) y(1) have "y = t" by simp
    with y(2) assms(1) show "x = t" by (simp add: finish_if_lost_simps)
  qed
qed

lemma handleLost_active_kept:
  assumes "tracker_inv s" and "x \<in> set (tracks s)" and "status x = Active"
  shows "x \<in> set (tracks (handleLostTracks s timeMs))"
proof -
  let ?ts = "map (finish_if_lost (maxLostFrames s) timeMs) (tracks s)"
  from handleLost_form [of s timeMs] obtain D where
    D: "handleLostTracks s timeMs = s\<lparr>tracks := filter (\<lambda>t. trk_id t \<notin> D) ?ts\<rparr>"
    and sub: "D \<subseteq> trk_id ` {x \<in> set ?ts. status x = Finished}"
    by blast
  have x_in: "x \<in> set ?ts"
    using assms(2,3) by (auto simp: image_iff finish_if_lost_simps intro!: bexI [where x = x])
  have dist: "distinct (map trk_id ?ts)"
    using assms(1) by (simp add: tracker_inv_def finish_if_lost_simps o_def)
  have "trk_id x \<notin> D"
  proof
    assume "trk_id x \<in> D"
    with sub have "trk_id x \<in> trk_id ` {x \<in> set ?ts. status x = Finished}"
      by blast
    then obtain y where y: "y \<in> set ?ts" "status y = Finished" "trk_id y = trk_id x"
      by (auto simp del: set_map)
    from dist y(1) x_in y(3) have "y = x"
      by (meson distinct_map inj_onD)
    with y(2) assms(3) show False by simp
  qed
  with x_in show ?thesis unfolding D by simp
qed

subsection \<open>The update cycle\<close>

lemma update_unfold:
  "update s dets timeMs =
     (let s0 = s\<lparr>frameCount := frameCount s + 1, tracks := map mark_lost (tracks s)\<rparr>;
          s1 = fst (matchLoop s0 timeMs dets);
          matched = snd (matchLoop s0 timeMs dets);
          s2 = fst (createLoop s1 timeMs matched);
          s3 = handleLostTracks s2 timeMs
      in (s3, getActiveTracks s3, snd (createLoop s1 timeMs matched)))"
  by (simp add: update_def Let_def split_beta)

lemma mark_lost_simps:
  "trk_id (mark_lost x) = trk_id x"
  "status x = Finished \<Longrightarrow> mark_lost x = x"
  "status (mark_lost x) = Finished \<longleftrightarrow> status x = Finished"
  by (simp_all add: mark_lost_def)

lemma tracker_inv_cong:
  assumes ids: "map trk_id (tracks s') = map trk_id (tracks s)"
    and n: "nextTrackId s' = nextTrackId s"
    and inv: "tracker_inv s"
  shows "tracker_inv s'"
proof -
  have img: "trk_id ` set (tracks s') = trk_id ` set (tracks s)"
    using arg_cong [OF ids, of set] by (simp only: set_map)
  have bound: "\<forall>t\<in>set (tracks s). trk_id t < nextTrackId s"
    using inv by (simp add: tracker_inv_def list_all_iff)
  have "\<forall>t\<in>set (tracks s'). trk_id t < nextTrackId s"
  proof
    fix t assume "t \<in> set (tracks s')"
    then have "trk_id t \<in> trk_id ` set (tracks s)"
      using img by blast
    with bound show "trk_id t < nextTrackId s" by auto
  qed
  moreover have "distinct (map trk_id (tracks s'))"
    using inv unfolding ids by (simp add: tracker_inv_def)
  ultimately show ?thesis
    by (simp add: tracker_inv_def list_all_iff n)
qed

lemma matchLoop_inv:
  assumes "tracker_inv s"
  shows "tracker_inv (fst (matchLoop s timeMs ds)) \<and>
         nextTrackId (fst (matchLoop s timeMs ds)) = nextTrackId s \<and>
         iouThreshold (fst (matchLoop s timeMs ds)) = iouThreshold s"
proof -
  from matchLoop_frame [of s timeMs ds] obtain ts where
    ts: "fst (matchLoop s timeMs ds) = s\<lparr>tracks := ts\<rparr>" "map trk_id ts = map trk_id (tracks s)"
    by blast
  have "tracker_inv (s\<lparr>tracks := ts\<rparr>)"
    by (rule tracker_inv_cong [OF _ _ assms]) (simp_all add: ts(2))
  then show ?thesis by (simp add: ts(1))
qed

lemma update_inv:
  assumes "tracker_inv s"
  shows "tracker_inv (fst (update s dets timeMs)) \<and>
         nextTrackId s \<le> nextTrackId (fst (update s dets timeMs))"
proof -
  let ?s0 = "s\<lparr>frameCount := frameCount s + 1, tracks := map mark_lost (tracks s)\<rparr>"
  let ?s1 = "fst (matchLoop ?s0 timeMs dets)"
  let ?m = "snd (matchLoop ?s0 timeMs dets)"
  let ?s2 = "fst (createLoop ?s1 timeMs ?m)"
  have inv0: "tracker_inv ?s0"
    by (rule tracker_inv_cong [OF _ _ assms]) (simp_all add: mark_lost_simps o_def)
  from matchLoop_inv [OF inv0, of timeMs dets]
  have inv1: "tracker_inv ?s1" and n1: "nextTrackId ?s1 = nextTrackId s" by simp_all
  from createLoop_props [OF inv1, of timeMs ?m]
  have inv2: "tracker_inv ?s2" and n2: "nextTrackId s \<le> nextTrackId ?s2"
    using n1 by simp_all
  from handleLost_inv [OF inv2, of timeMs] n2 show ?thesis
    by (simp add: update_unfold Let_def)
qed

lemma update_keeps:
  assumes "tracker_inv s"
    and "status t = Finished"
    and "\<forall>x\<in>set (tracks s). trk_id x = trk_id t \<longrightarrow> x = t"
    and "trk_id t < nextTrackId s"
  shows "(\<forall>x\<in>set (tracks (fst (update s dets timeMs))). trk_id x = trk_id t \<longrightarrow> x = t) \<and>
         (\<forall>d\<in>set (snd (snd (update s dets timeMs))).
            det_type d = Plate \<longrightarrow> trackId d \<noteq> Some (trk_id t))"
proof -
  let ?s0 = "s\<lparr>frameCount := frameCount s + 1, tracks := map mark_lost (tracks s)\<rparr>"
  let ?s1 = "fst (matchLoop ?s0 timeMs dets)"
  let ?m = "snd (matchLoop ?s0 timeMs dets)"
  let ?s2 = "fst (createLoop ?s1 timeMs ?m)"
  have inv0: "tracker_inv ?s0"
    by (rule tracker_inv_cong [OF _ _ assms(1)]) (simp_all add: mark_lost_simps o_def)
  have k0: "\<forall>x\<in>set (tracks ?s0). trk_id x = trk_id t \<longrightarrow> x = t"
    using assms(2,3) by (auto simp: mark_lost_simps)
  from matchLoop_inv [OF inv0, of timeMs dets]
  have inv1: "tracker_inv ?s1" and n1: "nextTrackId ?s1 = nextTrackId s" by simp_all
  have k1: "\<forall>x\<in>set (tracks ?s1). trk_id x = trk_id t \<longrightarrow> x = t"
    by (rule matchLoop_keeps [OF assms(2) k0])
  have st1: "\<forall>(d1, u)\<in>set ?m. det_type d1 = Plate \<longrightarrow> \<not> u \<longrightarrow> trackId d1 \<noteq> Some (trk_id t)"
    by (rule matchLoop_stamps [OF assms(2) k0])
  from createLoop_props [OF inv1, of timeMs ?m] obtain new where
    inv2: "tracker_inv ?s2"
    and new: "?s2 = ?s1\<lparr>tracks := tracks ?s1 @ new,
                        nextTrackId := nextTrackId ?s1 + length (filter snd ?m)\<rparr>"
      "\<forall>x\<in>set new. nextTrackId ?s1 \<le> trk_id x \<and> status x = Active"
    by blast
  have "tracks ?s2 = tracks ?s1 @ new"
    by (subst new(1)) simp
  then have k2: "\<forall>x\<in>set (tracks ?s2). trk_id x = trk_id t \<longrightarrow> x = t"
    using k1 new(2) n1 assms(4) by auto
  have k3: "\<forall>x\<in>set (tracks (handleLostTracks ?s2 timeMs)). trk_id x = trk_id t \<longrightarrow> x = t"
    by (rule handleLost_keeps [OF assms(2) k2])
  have "trk_id t < nextTrackId ?s1" using n1 assms(4) by simp
  from createLoop_stamps [OF this st1, of timeMs]
  have st2: "\<forall>d\<in>set (snd (createLoop ?s1 timeMs ?m)).
               det_type d = Plate \<longrightarrow> trackId d \<noteq> Some (trk_id t)" .
  from k3 st2 show ?thesis
    by (simp add: update_unfold Let_def)
qed

lemma updates_keeps:
  assumes "status t = Finished"
  shows "tracker_inv s \<Longrightarrow> \<forall>x\<in>set (tracks s). trk_id x = trk_id t \<longrightarrow> x = t \<Longrightarrow>
         trk_id t < nextTrackId s \<Longrightarrow>
         (\<forall>x\<in>set (tracks (fst (updates s calls))). trk_id x = trk_id t \<longrightarrow> x = t) \<and>
         (\<forall>out\<in>set (snd (updates s calls)). \<forall>d\<in>set out.
            det_type d = Plate \<longrightarrow> trackId d \<noteq> Some (trk_id t))"
proof (induction calls arbitrary: s)
  case Nil
  then show ?case by simp
next
  case (Cons c calls)
  obtain dets timeMs where c: "c = (dets, timeMs)" by (cases c) auto
  let ?s1 = "fst (update s dets timeMs)"
  from update_inv [OF Cons.prems(1), of dets timeMs]
  have inv1: "tracker_inv ?s1" and n1: "trk_id t < nextTrackId ?s1"
    using Cons.prems(3) by simp_all
  from update_keeps [OF Cons.prems(1) assms Cons.prems(2,3), of dets timeMs]
  have k1: "\<forall>x\<in>set (tracks ?s1). trk_id x = trk_id t \<longrightarrow> x = t"
    and st: "\<forall>d\<in>set (snd (snd (update s dets timeMs))).
               det_type d = Plate \<longrightarrow> trackId d \<noteq> Some (trk_id t)"
    by simp_all
  from Cons.IH [OF inv1 k1 n1] st show ?case
    by (simp add: c split_beta)
qed

lemma createLoop_nth_matched:
  "i < length ms \<Longrightarrow> \<not> snd (ms ! i) \<Longrightarrow> snd (createLoop s timeMs ms) ! i = fst (ms ! i)"
proof (induction ms arbitrary: s i)
  case Nil
  then show ?case by simp
next
  case (Cons m ms)
  obtain d u where m: "m = (d, u)" by (cases m) auto
  show ?case
  proof (cases i)
    case 0
    with Cons.prems m show ?thesis by (simp add: split_beta)
  next
    case (Suc j)
    with Cons.prems have "j < length ms" "\<not> snd (ms ! j)" by simp_all
    from Cons.IH [OF this] Suc m show ?thesis
      by (simp add: split_beta)
  qed
qed

subsection \<open>The claims about the tracker\<close>

text \<open>
  C2. A plate detection \<open>d\<close> of an update cycle is matched to the non-finished track with
  the highest IoU, the first one in the order of the map among equals, when that IoU is above
  the threshold and above 0 (the start value of \<^verbatim>\<open>bestIOU\<close>); it founds a new track when no
  non-finished track is above the threshold. The IoU is the double that \<^verbatim>\<open>calculateIOU\<close>
  computes, and "above" is the comparison \<^verbatim>\<open>>\<close> of doubles: a track whose IoU is \<^verbatim>\<open>NaN\<close> is
  above nothing and stands in the way of no other track.

  The cycle is \<open>update s (before @ d # after) timeMs\<close>, and \<open>sk\<close> is the tracker when the
  loop reaches \<open>d\<close>: the tracks are compared with the box they have at that moment. In
  the first case the turn of the loop sets the track's status to active, its box to the box of
  \<open>d\<close>, its confidence to \<^verbatim>\<open>old * 0.7 + conf * 0.3\<close> and its \<open>lastSeen\<close> to the sample
  time, and the cycle returns \<open>d\<close> stamped with the track's identity. In the second case
  the cycle returns \<open>d\<close> stamped with the identity \<open>nextTrackId s + k\<close>, where \<open>k\<close> is the
  number of unmatched detections before \<open>d\<close> in the cycle; no track of \<open>s\<close> has that
  identity, and the new track is among the active tracks the cycle returns.
\<close>

theorem tracker_assignment:
  assumes inv: "tracker_inv s"
    and plate: "det_type d = Plate"
    and reached: "matchLoop (s\<lparr>frameCount := frameCount s + 1, tracks := map mark_lost (tracks s)\<rparr>)
                    timeMs before = (sk, mk)"
  shows "(tracks sk = pre @ t # post \<and> status t \<noteq> Finished \<and>
          d_gt (calculateIOU (bbox d) (trk_bbox t)) (iouThreshold s) \<and>
          d_gt (calculateIOU (bbox d) (trk_bbox t)) (Finite 0 0) \<and>
          (\<forall>p\<in>set pre. status p \<noteq> Finished \<longrightarrow>
             \<not> d_ge (calculateIOU (bbox d) (trk_bbox p)) (calculateIOU (bbox d) (trk_bbox t))) \<and>
          (\<forall>q\<in>set post. status q \<noteq> Finished \<longrightarrow>
             \<not> d_gt (calculateIOU (bbox d) (trk_bbox q)) (calculateIOU (bbox d) (trk_bbox t))) \<longrightarrow>
          matchStep sk timeMs d =
            (sk\<lparr>tracks := pre @
                 t\<lparr>status := Active, lastSeen := timeMs,
                   detections := detections t @ [d\<lparr>trackId := Some (trk_id t)\<rparr>],
                   trk_bbox := bbox d,
                   confidence :=
                     d_add (d_mul (confidence t) (dbl (7 / 10)))
                       (d_mul (conf d) (dbl (3 / 10)))\<rparr> # post\<rparr>,
             d\<lparr>trackId := Some (trk_id t)\<rparr>, False) \<and>
          snd (snd (update s (before @ d # after) timeMs)) ! length before =
            d\<lparr>trackId := Some (trk_id t)\<rparr>) \<and>
         ((\<forall>q\<in>set (tracks sk). status q \<noteq> Finished \<longrightarrow>
             \<not> d_gt (calculateIOU (bbox d) (trk_bbox q)) (iouThreshold s)) \<longrightarrow>
          matchStep sk timeMs d = (sk, d, True) \<and>
          snd (snd (update s (before @ d # after) timeMs)) ! length before =
            d\<lparr>trackId := Some (nextTrackId s + length (filter snd mk))\<rparr> \<and>
          nextTrackId s + length (filter snd mk) \<notin> trk_id ` set (tracks s) \<and>
          \<lparr>trk_id = nextTrackId s + length (filter snd mk), status = Active, startTime = timeMs,
            lastSeen = timeMs,
            detections = [d\<lparr>trackId := Some (nextTrackId s + length (filter snd mk))\<rparr>],
            trk_bbox = bbox d, confidence = conf d\<rparr>
            \<in> set (fst (snd (update s (before @ d # after) timeMs))))"
proof -
  let ?dets = "before @ d # after"
  define s0 where "s0 = s\<lparr>frameCount := frameCount s + 1, tracks := map mark_lost (tracks s)\<rparr>"
  define s1 where "s1 = fst (matchLoop s0 timeMs ?dets)"
  define m where "m = snd (matchLoop s0 timeMs ?dets)"
  define s2 where "s2 = fst (createLoop s1 timeMs m)"
  have inv0: "tracker_inv s0"
    unfolding s0_def
    by (rule tracker_inv_cong [OF _ _ inv]) (simp_all add: mark_lost_simps o_def)
  have n0: "nextTrackId s0 = nextTrackId s" and thr0: "iouThreshold s0 = iouThreshold s"
    by (simp_all add: s0_def)
  have reached0: "matchLoop s0 timeMs before = (sk, mk)"
    using reached by (simp add: s0_def)
  from matchLoop_inv [OF inv0, of timeMs before]
  have invk: "tracker_inv sk" and nk: "nextTrackId sk = nextTrackId s"
    and thr: "iouThreshold sk = iouThreshold s"
    by (simp_all add: reached0 n0 thr0)
  have len: "length mk = length before"
    using matchLoop_length [of s0 timeMs before] by (simp add: reached0)
  have m_split: "\<And>s' d' u. matchStep sk timeMs d = (s', d', u) \<Longrightarrow>
      m = mk @ (d', u) # snd (matchLoop s' timeMs after)"
    by (simp add: m_def matchLoop_append reached0 split_beta)
  from matchLoop_inv [OF inv0, of timeMs ?dets]
  have inv1: "tracker_inv s1" and n1: "nextTrackId s1 = nextTrackId s"
    by (simp_all add: s1_def n0)
  have upd: "update s ?dets timeMs =
      (handleLostTracks s2 timeMs, getActiveTracks (handleLostTracks s2 timeMs),
       snd (createLoop s1 timeMs m))"
    by (simp add: update_unfold Let_def s0_def s1_def m_def s2_def)
  have out: "snd (snd (update s ?dets timeMs)) = snd (createLoop s1 timeMs m)"
    by (simp add: upd)
  have matched: "matchStep sk timeMs d =
            (sk\<lparr>tracks := pre @ updateTrack t (d\<lparr>trackId := Some (trk_id t)\<rparr>) timeMs # post\<rparr>,
             d\<lparr>trackId := Some (trk_id t)\<rparr>, False) \<and>
          snd (snd (update s ?dets timeMs)) ! length before = d\<lparr>trackId := Some (trk_id t)\<rparr>"
    if h: "tracks sk = pre @ t # post" "status t \<noteq> Finished"
      "d_gt (calculateIOU (bbox d) (trk_bbox t)) (iouThreshold s)"
      "d_gt (calculateIOU (bbox d) (trk_bbox t)) (Finite 0 0)"
      "\<forall>p\<in>set pre. status p \<noteq> Finished \<longrightarrow>
         \<not> d_ge (calculateIOU (bbox d) (trk_bbox p)) (calculateIOU (bbox d) (trk_bbox t))"
      "\<forall>q\<in>set post. status q \<noteq> Finished \<longrightarrow>
         \<not> d_gt (calculateIOU (bbox d) (trk_bbox q)) (calculateIOU (bbox d) (trk_bbox t))"
  proof -
    have dist: "distinct (map trk_id (tracks sk))"
      using invk by (simp add: tracker_inv_def)
    have step: "matchStep sk timeMs d =
            (sk\<lparr>tracks := pre @ updateTrack t (d\<lparr>trackId := Some (trk_id t)\<rparr>) timeMs # post\<rparr>,
             d\<lparr>trackId := Some (trk_id t)\<rparr>, False)"
      using h(3) by (intro matchStep_matched [OF dist plate h(1,2) _ h(4,5,6)]) (simp add: thr)
    from m_split [OF step] len
    have "length before < length m" "m ! length before = (d\<lparr>trackId := Some (trk_id t)\<rparr>, False)"
      by (simp_all add: nth_append)
    then have "snd (createLoop s1 timeMs m) ! length before = d\<lparr>trackId := Some (trk_id t)\<rparr>"
      using createLoop_nth_matched [of "length before" m s1 timeMs] by simp
    with step out show ?thesis by simp
  qed
  have unmatched: "matchStep sk timeMs d = (sk, d, True) \<and>
          snd (snd (update s ?dets timeMs)) ! length before =
            d\<lparr>trackId := Some (nextTrackId s + length (filter snd mk))\<rparr> \<and>
          nextTrackId s + length (filter snd mk) \<notin> trk_id ` set (tracks s) \<and>
          \<lparr>trk_id = nextTrackId s + length (filter snd mk), status = Active, startTime = timeMs,
            lastSeen = timeMs,
            detections = [d\<lparr>trackId := Some (nextTrackId s + length (filter snd mk))\<rparr>],
            trk_bbox = bbox d, confidence = conf d\<rparr>
            \<in> set (fst (snd (update s ?dets timeMs)))"
    if h: "\<forall>q\<in>set (tracks sk). status q \<noteq> Finished \<longrightarrow>
             \<not> d_gt (calculateIOU (bbox d) (trk_bbox q)) (iouThreshold s)"
  proof -
    let ?n = "nextTrackId s + length (filter snd mk)"
    let ?t = "\<lparr>trk_id = ?n, status = Active, startTime = timeMs, lastSeen = timeMs,
               detections = [d\<lparr>trackId := Some ?n\<rparr>], trk_bbox = bbox d, confidence = conf d\<rparr>"
    have step: "matchStep sk timeMs d = (sk, d, True)"
      using h by (intro matchStep_unmatched [OF plate]) (simp add: thr)
    from m_split [OF step]
    have m: "m = mk @ (d, True) # snd (matchLoop sk timeMs after)" .
    from createLoop_at [OF inv1, of timeMs mk d "snd (matchLoop sk timeMs after)"]
    have at: "snd (createLoop s1 timeMs m) ! length before = d\<lparr>trackId := Some ?n\<rparr>"
      and mem2: "?t \<in> set (tracks s2)"
      unfolding m [symmetric] s2_def n1 len by simp_all
    from createLoop_props [OF inv1, of timeMs m]
    have inv2: "tracker_inv s2" by (simp add: s2_def)
    have "?t \<in> set (tracks (handleLostTracks s2 timeMs))"
      by (rule handleLost_active_kept [OF inv2 mem2]) simp
    then have ret: "?t \<in> set (fst (snd (update s ?dets timeMs)))"
      by (simp add: upd getActiveTracks_def)
    have fresh: "?n \<notin> trk_id ` set (tracks s)"
      using inv by (auto simp: tracker_inv_def list_all_iff)
    from step at ret fresh out show ?thesis by simp
  qed
  from matched unmatched show ?thesis
    by (simp add: updateTrack_def)
qed

text \<open>
  The example tracker, with a plate at the box of its finished track 3. When the loop reaches
  the plate, track 1 has the IoU 70/130 and track 2 the IoU 90/110 with it, rounded to the
  nearest double, and the plate is matched to track 2, whose confidence becomes
  \<^verbatim>\<open>0.8 * 0.7 + 0.5 * 0.3\<close>, the double \<^verbatim>\<open>0.71\<close>. Two plates far from every track follow in the
  same cycle; they found the tracks 4 and 5.

  Last, a case that the rounding decides. A new tracker has seen a plate at
  \<^verbatim>\<open>[2.9, 0, 5, 1]\<close>, which founded track 1. For the plate \<^verbatim>\<open>[3.8, 0, 6.9, 1]\<close> the source
  computes the intersection \<^verbatim>\<open>1.2000000000000002\<close> and the union \<^verbatim>\<open>4.000000000000001\<close>, and
  their quotient is the double \<^verbatim>\<open>0.3\<close>, which is not above the threshold \<^verbatim>\<open>0.3\<close>: the plate
  founds track 2.
\<close>

theorem tracker_assignment_witness:
  "tracker_inv example_tracker \<and>
   det_type (plate_detection (3, 0, 13, 10) (1 / 2)) = Plate \<and>
   map mark_lost (tracks example_tracker) = [example_track 1 Lost (0, 0, 10, 10) (9 / 10)] @
       example_track 2 Lost (2, 0, 12, 10) (4 / 5) # [example_track 3 Finished (3, 0, 13, 10) (1 /
       2)] \<and>
   status (example_track 2 Lost (2, 0, 12, 10) (4 / 5)) \<noteq> Finished \<and>
   iouThreshold example_tracker = dbl (3 / 10) \<and>
   calculateIOU (box (3, 0, 13, 10)) (box (0, 0, 10, 10)) = dbl (7 / 13) \<and>
   calculateIOU (box (3, 0, 13, 10)) (box (2, 0, 12, 10)) = dbl (9 / 11) \<and>
   d_gt (dbl (9 / 11)) (dbl (3 / 10)) \<and>
   d_gt (dbl (9 / 11)) (dbl 0) \<and>
   d_gt (dbl (9 / 11)) (dbl (7 / 13)) \<and>
   status (example_track 3 Finished (3, 0, 13, 10) (1 / 2)) = Finished \<and>
   update example_tracker [plate_detection (3, 0, 13, 10) (1 / 2)] (dbl 33) =
     (\<lparr>tracks = [example_track 1 Lost (0, 0, 10, 10) (9 / 10), \<lparr>trk_id = 2, status = Active,
         startTime = dbl 0, lastSeen = dbl 33, detections = [(plate_detection (3, 0, 13, 10) (1 /
         2))\<lparr>trackId := Some 2\<rparr>], trk_bbox = box (3, 0, 13, 10), confidence = dbl (71 / 100)\<rparr>,
         example_track 3 Finished (3, 0, 13, 10) (1 / 2)], nextTrackId = 4, iouThreshold = dbl (3 /
         10), maxLostFrames = dbl 10, minDetections = dbl 3, frameCount = 8\<rparr>,
      [\<lparr>trk_id = 2, status = Active, startTime = dbl 0, lastSeen = dbl 33, detections =
          [(plate_detection (3, 0, 13, 10) (1 / 2))\<lparr>trackId := Some 2\<rparr>], trk_bbox = box (3, 0, 13,
          10), confidence = dbl (71 / 100)\<rparr>],
      [(plate_detection (3, 0, 13, 10) (1 / 2))\<lparr>trackId := Some 2\<rparr>]) \<and>
   map (\<lambda>t. (trk_id t, status t, trk_bbox t)) (tracks (fst (matchLoop (example_tracker\<lparr>frameCount :=
       frameCount example_tracker + 1, tracks := map mark_lost (tracks example_tracker)\<rparr>) (dbl 33)
       [plate_detection (3, 0, 13, 10) (1 / 2), plate_detection (100, 100, 110, 110) (3 / 5)]))) =
     [(1, Lost, box (0, 0, 10, 10)), (2, Active, box (3, 0, 13, 10)), (3, Finished, box (3, 0, 13,
         10))] \<and>
   map snd (snd (matchLoop (example_tracker\<lparr>frameCount := frameCount example_tracker + 1, tracks :=
       map mark_lost (tracks example_tracker)\<rparr>) (dbl 33) [plate_detection (3, 0, 13, 10) (1 / 2),
       plate_detection (100, 100, 110, 110) (3 / 5)])) = [False, True] \<and>
   calculateIOU (box (200, 200, 210, 210)) (box (0, 0, 10, 10)) = dbl 0 \<and>
   calculateIOU (box (200, 200, 210, 210)) (box (3, 0, 13, 10)) = dbl 0 \<and>
   snd (snd (update example_tracker [plate_detection (3, 0, 13, 10) (1 / 2), plate_detection (100,
       100, 110, 110) (3 / 5), plate_detection (200, 200, 210, 210) (7 / 10)] (dbl 33))) =
     [(plate_detection (3, 0, 13, 10) (1 / 2))\<lparr>trackId := Some 2\<rparr>, (plate_detection (100, 100, 110,
         110) (3 / 5))\<lparr>trackId := Some 4\<rparr>, (plate_detection (200, 200, 210, 210) (7 / 10))\<lparr>trackId
         := Some 5\<rparr>] \<and>
   map (\<lambda>t. (trk_id t, trk_bbox t)) (fst (snd (update example_tracker [plate_detection (3, 0, 13,
       10) (1 / 2), plate_detection (100, 100, 110, 110) (3 / 5), plate_detection (200, 200, 210,
       210) (7 / 10)] (dbl 33)))) =
     [(2, box (3, 0, 13, 10)), (4, box (100, 100, 110, 110)), (5, box (200, 200, 210, 210))] \<and>
   map (\<lambda>t. (trk_id t, status t, trk_bbox t)) (tracks (fst (update (new_TrackerSimple None None
       None) [plate_detection (29 / 10, 0, 5, 1) (9 / 10)] (dbl 0)))) = [(1, Active, box (29 / 10,
       0, 5, 1))] \<and>
   iouThreshold (fst (update (new_TrackerSimple None None None) [plate_detection (29 / 10, 0, 5, 1)
       (9 / 10)] (dbl 0))) = dbl (3 / 10) \<and>
   d_sub (dbl 5) (dbl (38 / 10)) = dbl (12000000000000002 / 10000000000000000) \<and>
   d_sub (d_add (dbl (31000000000000005 / 10000000000000000)) (dbl (21 / 10))) (dbl
       (12000000000000002 / 10000000000000000)) = dbl (4000000000000001 / 1000000000000000) \<and>
   calculateIOU (box (38 / 10, 0, 69 / 10, 1)) (box (29 / 10, 0, 5, 1)) = dbl (3 / 10) \<and>
   \<not> d_gt (dbl (3 / 10)) (dbl (3 / 10)) \<and>
   snd (snd (update (fst (update (new_TrackerSimple None None None) [plate_detection (29 / 10, 0, 5,
       1) (9 / 10)] (dbl 0))) [plate_detection (38 / 10, 0, 69 / 10, 1) (9 / 10)] (dbl 33))) =
       [(plate_detection (38 / 10, 0, 69 / 10, 1) (9 / 10))\<lparr>trackId := Some 2\<rparr>] \<and>
   map (\<lambda>t. (trk_id t, status t, trk_bbox t)) (tracks (fst (update (fst (update (new_TrackerSimple
       None None None) [plate_detection (29 / 10, 0, 5, 1) (9 / 10)] (dbl 0))) [plate_detection (38
       / 10, 0, 69 / 10, 1) (9 / 10)] (dbl 33)))) =
     [(1, Lost, box (29 / 10, 0, 5, 1)), (2, Active, box (38 / 10, 0, 69 / 10, 1))]"
  using
    tracker_assignment [where s = example_tracker and d = "plate_detection (3, 0, 13, 10) (1 / 2)"
        and timeMs = "dbl 33"
      and before = "[]" and after = "[]" and sk = "example_tracker\<lparr>frameCount := frameCount
          example_tracker + 1, tracks := map mark_lost (tracks example_tracker)\<rparr>" and mk = "[]"
      and pre = "[example_track 1 Lost (0, 0, 10, 10) (9 / 10)]" and t = "example_track 2 Lost (2,
          0, 12, 10) (4 / 5)" and post = "[example_track 3 Finished (3, 0, 13, 10) (1 / 2)]"]
    tracker_assignment [where s = example_tracker and d = "plate_detection (200, 200, 210, 210) (7 /
        10)" and timeMs = "dbl 33"
      and before = "[plate_detection (3, 0, 13, 10) (1 / 2), plate_detection (100, 100, 110, 110) (3
          / 5)]" and after = "[]"
      and sk = "fst (matchLoop (example_tracker\<lparr>frameCount := frameCount example_tracker + 1, tracks
          := map mark_lost (tracks example_tracker)\<rparr>) (dbl 33) [plate_detection (3, 0, 13, 10) (1 /
          2), plate_detection (100, 100, 110, 110) (3 / 5)])"
      and mk = "snd (matchLoop (example_tracker\<lparr>frameCount := frameCount example_tracker + 1, tracks
          := map mark_lost (tracks example_tracker)\<rparr>) (dbl 33) [plate_detection (3, 0, 13, 10) (1 /
          2), plate_detection (100, 100, 110, 110) (3 / 5)])"]
    tracker_assignment [where s = "fst (update (new_TrackerSimple None None None) [plate_detection
        (29 / 10, 0, 5, 1) (9 / 10)] (dbl 0))" and d = "plate_detection (38 / 10, 0, 69 / 10, 1) (9
        / 10)" and timeMs = "dbl 33"
      and before = "[]" and after = "[]" and sk = "(fst (update (new_TrackerSimple None None None)
          [plate_detection (29 / 10, 0, 5, 1) (9 / 10)] (dbl 0)))\<lparr>frameCount := frameCount (fst
          (update (new_TrackerSimple None None None) [plate_detection (29 / 10, 0, 5, 1) (9 / 10)]
          (dbl 0))) + 1, tracks := map mark_lost (tracks (fst (update (new_TrackerSimple None None
          None) [plate_detection (29 / 10, 0, 5, 1) (9 / 10)] (dbl 0))))\<rparr>" and mk = "[]"]
  by code_simp

text \<open>
  The claim as it is written asks only for an IoU above the threshold. With the threshold
  \<open>-1\<close> (the constructor takes any number), a tracker that has seen one plate holds track 1,
  which is not finished. A plate far from it has the IoU 0 with track 1, the highest IoU there
  is and above the threshold, and is still not matched to track 1: the comparison with
  \<^verbatim>\<open>bestIOU = 0\<close> fails, the cycle founds track 2, and track 1 is left lost with its old box.
\<close>

theorem tracker_assignment_counterexample:
  "map (\<lambda>t. (trk_id t, status t, trk_bbox t)) (tracks (fst (update (new_TrackerSimple (Some (dbl (-
      1))) None None) [plate_detection (0, 0, 10, 10) (9 / 10)] (dbl 0)))) = [(1, Active, box (0, 0,
      10, 10))] \<and>
   iouThreshold (fst (update (new_TrackerSimple (Some (dbl (- 1))) None None) [plate_detection (0,
       0, 10, 10) (9 / 10)] (dbl 0))) = dbl (- 1) \<and>
   calculateIOU (box (100, 100, 110, 110)) (box (0, 0, 10, 10)) = dbl 0 \<and>
   d_gt (calculateIOU (box (100, 100, 110, 110)) (box (0, 0, 10, 10))) (iouThreshold (fst (update
       (new_TrackerSimple (Some (dbl (- 1))) None None) [plate_detection (0, 0, 10, 10) (9 / 10)]
       (dbl 0)))) \<and>
   snd (snd (update (fst (update (new_TrackerSimple (Some (dbl (- 1))) None None) [plate_detection
       (0, 0, 10, 10) (9 / 10)] (dbl 0))) [plate_detection (100, 100, 110, 110) (3 / 5)] (dbl 33)))
       = [(plate_detection (100, 100, 110, 110) (3 / 5))\<lparr>trackId := Some 2\<rparr>] \<and>
   map (\<lambda>t. (trk_id t, status t, trk_bbox t)) (tracks (fst (update (fst (update (new_TrackerSimple
       (Some (dbl (- 1))) None None) [plate_detection (0, 0, 10, 10) (9 / 10)] (dbl 0)))
       [plate_detection (100, 100, 110, 110) (3 / 5)] (dbl 33)))) =
     [(1, Lost, box (0, 0, 10, 10)), (2, Active, box (100, 100, 110, 110))]"
  by code_simp

text \<open>
  C4. A finished track stays finished. In a tracker that satisfies \<open>tracker_inv\<close> (as the new
  tracker does, and every tracker that update cycles make of it), take a track \<open>t\<close> of the
  map that is finished. After any run of update cycles the map holds no track with the
  identity of \<open>t\<close> (it was evicted), or the track it holds under that identity has the
  status, the last-seen time, the box and the confidence of \<open>t\<close>; and no plate detection of
  any of the cycles is stamped with the identity of \<open>t\<close>.
\<close>

theorem finished_track_never_regresses:
  assumes "tracker_inv s" and "t \<in> set (tracks s)" and "status t = Finished"
  shows "(\<forall>x\<in>set (tracks (fst (updates s calls))).
            trk_id x = trk_id t \<longrightarrow>
              status x = Finished \<and> lastSeen x = lastSeen t \<and> trk_bbox x = trk_bbox t \<and>
              confidence x = confidence t) \<and>
         (\<forall>out\<in>set (snd (updates s calls)). \<forall>d\<in>set out.
            det_type d = Plate \<longrightarrow> trackId d \<noteq> Some (trk_id t))"
proof -
  have k: "\<forall>x\<in>set (tracks s). trk_id x = trk_id t \<longrightarrow> x = t"
    using assms(1,2) by (auto simp: tracker_inv_def dest: inj_onD [OF _ _ _ _] simp: distinct_map)
  have n: "trk_id t < nextTrackId s"
    using assms(1,2) by (auto simp: tracker_inv_def list_all_iff)
  from updates_keeps [OF assms(3,1) k n, of calls] assms(3) show ?thesis
    by auto
qed

text \<open>
  A new tracker sees a plate at time 0 and nothing at time 1000, which finishes track 1. The
  same plate box at the times 1033 and 1066 founds track 2 and is matched to it, though its IoU
  with the box of track 1 is 1.
\<close>

theorem finished_track_never_regresses_witness:
  "tracker_inv (fst (updates (new_TrackerSimple None None None) [([plate_detection (3, 0, 13, 10) (1
      / 2)], dbl 0), ([], dbl 1000)])) \<and>
   tracks (fst (updates (new_TrackerSimple None None None) [([plate_detection (3, 0, 13, 10) (1 /
       2)], dbl 0), ([], dbl 1000)])) = [\<lparr>trk_id = 1, status = Finished, startTime = dbl 0, lastSeen
       = dbl 0, detections = [(plate_detection (3, 0, 13, 10) (1 / 2))\<lparr>trackId := Some 1\<rparr>], trk_bbox
       = box (3, 0, 13, 10), confidence = dbl (1 / 2)\<rparr>] \<and>
   status \<lparr>trk_id = 1, status = Finished, startTime = dbl 0, lastSeen = dbl 0, detections =
       [(plate_detection (3, 0, 13, 10) (1 / 2))\<lparr>trackId := Some 1\<rparr>], trk_bbox = box (3, 0, 13, 10),
       confidence = dbl (1 / 2)\<rparr> = Finished \<and>
   calculateIOU (box (3, 0, 13, 10)) (box (3, 0, 13, 10)) = dbl 1 \<and>
   tracks (fst (updates (fst (updates (new_TrackerSimple None None None) [([plate_detection (3, 0,
       13, 10) (1 / 2)], dbl 0), ([], dbl 1000)])) [([plate_detection (3, 0, 13, 10) (1 / 2)], dbl
       1033), ([plate_detection (3, 0, 13, 10) (1 / 2)], dbl 1066)])) = [\<lparr>trk_id = 1, status =
       Finished, startTime = dbl 0, lastSeen = dbl 0, detections = [(plate_detection (3, 0, 13, 10)
       (1 / 2))\<lparr>trackId := Some 1\<rparr>], trk_bbox = box (3, 0, 13, 10), confidence = dbl (1 / 2)\<rparr>,
       \<lparr>trk_id = 2, status = Active, startTime = dbl 1033, lastSeen = dbl 1066, detections =
       [(plate_detection (3, 0, 13, 10) (1 / 2))\<lparr>trackId := Some 2\<rparr>, (plate_detection (3, 0, 13, 10)
       (1 / 2))\<lparr>trackId := Some 2\<rparr>], trk_bbox = box (3, 0, 13, 10), confidence = dbl (1 / 2)\<rparr>] \<and>
   snd (updates (fst (updates (new_TrackerSimple None None None) [([plate_detection (3, 0, 13, 10)
       (1 / 2)], dbl 0), ([], dbl 1000)])) [([plate_detection (3, 0, 13, 10) (1 / 2)], dbl 1033),
       ([plate_detection (3, 0, 13, 10) (1 / 2)], dbl 1066)]) = [[(plate_detection (3, 0, 13, 10) (1
       / 2))\<lparr>trackId := Some 2\<rparr>], [(plate_detection (3, 0, 13, 10) (1 / 2))\<lparr>trackId := Some 2\<rparr>]]"
  using finished_track_never_regresses [where s = "fst (updates (new_TrackerSimple None None None)
      [([plate_detection (3, 0, 13, 10) (1 / 2)], dbl 0), ([], dbl 1000)])" and t = "\<lparr>trk_id = 1,
      status = Finished, startTime = dbl 0, lastSeen = dbl 0, detections = [(plate_detection (3, 0,
      13, 10) (1 / 2))\<lparr>trackId := Some 1\<rparr>], trk_bbox = box (3, 0, 13, 10), confidence = dbl (1 /
      2)\<rparr>" and calls = "[([plate_detection (3, 0, 13, 10) (1 / 2)], dbl 1033), ([plate_detection (3,
      0, 13, 10) (1 / 2)], dbl 1066)]"]
  by code_simp

lemma tracker_inv_new: "tracker_inv (new_TrackerSimple a b c)"
  by (simp add: tracker_inv_def new_TrackerSimple_def)

lemma tracker_inv_updates: "tracker_inv s \<Longrightarrow> tracker_inv (fst (updates s calls))"
proof (induction calls arbitrary: s)
  case Nil
  then show ?case by simp
next
  case (Cons c calls)
  obtain dets timeMs where c: "c = (dets, timeMs)" by (cases c) auto
  from update_inv [OF Cons.prems, of dets timeMs]
  have "tracker_inv (fst (update s dets timeMs))" by simp
  from Cons.IH [OF this] show ?case
    by (simp add: c split_beta)
qed


text \<open>A cycle that leaves a lost and a finished track in the map and returns the active one.\<close>

lemma update_returns_active_example:
  "map (\<lambda>t. (trk_id t, status t)) (tracks (fst (update example_tracker [plate_detection (3, 0, 13,
      10) (1 / 2)] (dbl 33)))) =
     [(1, Lost), (2, Active), (3, Finished)] \<and>
   map (\<lambda>t. (trk_id t, status t)) (fst (snd (update example_tracker [plate_detection (3, 0, 13, 10)
       (1 / 2)] (dbl 33)))) = [(2, Active)]"
  by code_simp

section \<open>SessionManager: properties\<close>

lemma sessions_get_delete: "sessions_get (sessions_delete xs k) k = None"
  by (induction xs) (auto simp: sessions_delete_def)

lemma sessions_get_key: "sessions_get xs key = Some s \<Longrightarrow> ses_trackId s = key"
  by (induction xs) (auto split: if_splits)

lemma sessions_get_set:
  "sessions_get xs (ses_trackId s) = Some old \<Longrightarrow>
     sessions_get (sessions_set xs s) (ses_trackId s) = Some s"
  by (induction xs) (auto split: if_splits)

text \<open>
  C3. A finalized session is not left alone by a later update for the same track. A new
  SessionManager (capacity 20, floor 3) gets three updates with a crop for track 1, at the
  times 0, 100 and 200; \<^verbatim>\<open>finalizeSession\<close> then finalizes the session, with the three crops
  and the end time 200. A fourth update for track 1, at the time 300 with a fourth crop, finds
  the session in the map and goes to \<^verbatim>\<open>updateSession\<close>, which does not look at the status:
  the finalized session now ends at 300 and holds four crops.
\<close>

theorem finalized_session_still_updated:
  "sessions (example_manager 3) = [\<lparr>ses_trackId = 1, startMs = 0, endMs = 200, crops = [example_crop
      1 0, example_crop 2 100, example_crop 3 200], ses_status = SessionActive\<rparr>] \<and>
   snd (finalizeSession (example_manager 3) 1 ''completed'') = Some \<lparr>ses_trackId = 1, startMs = 0,
       endMs = 200, crops = [example_crop 1 0, example_crop 2 100, example_crop 3 200], ses_status =
       Finalized\<rparr> \<and>
   sessions (fst (finalizeSession (example_manager 3) 1 ''completed'')) = [\<lparr>ses_trackId = 1, startMs
       = 0, endMs = 200, crops = [example_crop 1 0, example_crop 2 100, example_crop 3 200],
       ses_status = Finalized\<rparr>] \<and>
   sessions (session_update (fst (finalizeSession (example_manager 3) 1 ''completed''))
       (example_track 1 Active (0, 0, 10, 10) (9 / 10)) (plate_detection (0, 0, 10, 10) (9 / 10))
           300 (Some (example_crop 4 300))) = [\<lparr>ses_trackId = 1, startMs = 0, endMs = 300, crops =
           [example_crop 1 0, example_crop 2 100, example_crop 3 200, example_crop 4 300],
           ses_status = Finalized\<rparr>]"
  by code_simp

text \<open>
  The same for every finalized session of the map: an update with a crop extends its end time
  and appends the crop. (At the capacity \<^verbatim>\<open>updateSession\<close> calls \<^verbatim>\<open>finalizeSession\<close>, which
  returns at once for a session that is not active.)
\<close>

lemma updateSession_ignores_status:
  assumes "sessions_get (sessions m) (trk_id track) = Some session"
    and "ses_status session = Finalized"
  shows "sessions_get (sessions (session_update m track detection timeMs (Some c))) (trk_id track) =
           Some (session\<lparr>endMs := timeMs, crops := crops session @ [c]\<rparr>)"
proof -
  let ?pushed = "session\<lparr>endMs := timeMs, crops := crops session @ [c]\<rparr>"
  let ?m1 = "m\<lparr>sessions := sessions_set (sessions m) ?pushed\<rparr>"
  have key: "ses_trackId ?pushed = trk_id track"
    using sessions_get_key [OF assms(1)] by simp
  have get: "sessions_get (sessions ?m1) (trk_id track) = Some ?pushed"
    using sessions_get_set [of "sessions m" ?pushed session] assms(1) key by simp
  have fin: "finalizeSession ?m1 (trk_id track) reason = (?m1, None)" for reason
    using get assms(2) unfolding finalizeSession_def by simp
  have "session_update m track detection timeMs (Some c) = ?m1"
    using assms(1) fin [of "''max_frames_reached''"]
    by (simp add: session_update_def updateSession_def Let_def)
  with get show ?thesis by simp
qed

text \<open>
  C5. When \<^verbatim>\<open>finalizeSession\<close> is called for an active session with fewer crops than the
  floor \<^verbatim>\<open>minSessionFrames\<close>, it deletes the session from the map and returns \<^verbatim>\<open>null\<close>; the
  other sessions are untouched. After the call the map has no session under that key, so none
  of the finalized sessions of the map is that session, and the caller has no session to build
  an event from.
\<close>

theorem finalize_discards_short_session:
  assumes "sessions_get (sessions m) trackKey = Some session"
    and "ses_status session = SessionActive"
    and "of_nat (length (crops session)) < minSessionFrames m"
  shows "finalizeSession m trackKey reason =
           (m\<lparr>sessions := filter (\<lambda>x. ses_trackId x \<noteq> trackKey) (sessions m)\<rparr>, None) \<and>
         getSession (fst (finalizeSession m trackKey reason)) trackKey = None \<and>
         filter (\<lambda>x. ses_trackId x = trackKey)
           (getFinalizedSessions (fst (finalizeSession m trackKey reason))) = []"
proof -
  have fin: "finalizeSession m trackKey reason =
      (m\<lparr>sessions := sessions_delete (sessions m) trackKey\<rparr>, None)"
    using assms by (simp add: finalizeSession_def)
  have "filter (\<lambda>x. ses_trackId x = trackKey)
      (filter (\<lambda>s. ses_status s = Finalized) (sessions_delete (sessions m) trackKey)) = []"
    by (auto simp: sessions_delete_def filter_empty_conv)
  with fin show ?thesis
    by (simp add: getSession_def getFinalizedSessions_def sessions_get_delete)
      (simp add: sessions_delete_def)
qed

text \<open>A session with two crops, under the default floor of three.\<close>

theorem finalize_discards_short_session_witness:
  "sessions_get (sessions (example_manager 2)) 1 = Some \<lparr>ses_trackId = 1, startMs = 0, endMs = 100,
      crops = [example_crop 1 0, example_crop 2 100], ses_status = SessionActive\<rparr> \<and>
   ses_status \<lparr>ses_trackId = 1, startMs = 0, endMs = 100, crops = [example_crop 1 0, example_crop 2
       100], ses_status = SessionActive\<rparr> = SessionActive \<and>
   (of_nat (length (crops \<lparr>ses_trackId = 1, startMs = 0, endMs = 100, crops = [example_crop 1 0,
       example_crop 2 100], ses_status = SessionActive\<rparr>)) :: rat) < minSessionFrames
       (example_manager 2) \<and>
   snd (finalizeSession (example_manager 2) 1 ''track_lost'') = None \<and>
   sessions (fst (finalizeSession (example_manager 2) 1 ''track_lost'')) = [] \<and>
   getSession (fst (finalizeSession (example_manager 2) 1 ''track_lost'')) 1 = None \<and>
   getFinalizedSessions (fst (finalizeSession (example_manager 2) 1 ''track_lost'')) = []"
  using finalize_discards_short_session [where m = "example_manager 2" and trackKey = 1
      and session = "\<lparr>ses_trackId = 1, startMs = 0, endMs = 100, crops = [example_crop 1 0,
          example_crop 2 100], ses_status = SessionActive\<rparr>" and reason = "''track_lost''"]
  by code_simp

section \<open>Deduplicator: properties\<close>











section \<open>Validator: properties\<close>

lemma dropWhile_all: "list_all P xs \<Longrightarrow> dropWhile P xs = []"
  by (induction xs) auto

lemma trim_blank: "list_all is_js_whitespace s \<Longrightarrow> trim s = []"
  by (simp add: trim_def dropWhile_all)

text \<open>
  C8. A plate text that is empty or holds only white space is invalid, with the one reason
  that the text is empty, whatever the rules and whether the fallback is enabled or not:
  neither the strict pass nor the fallback pass runs.
\<close>

theorem validatePlate_blank:
  "list_all is_js_whitespace plate \<Longrightarrow>
     validatePlate v plate =
       \<lparr>valid = False, mode = Strict, vr_plate = plate, reasons = [EmptyOrNullPlateText],
        warnings = [], metadata = None\<rparr>"
  by (simp add: validatePlate_def trim_blank Let_def)

theorem validatePlate_blank_witness:
  "list_all is_js_whitespace [32, 9, 160 :: nat] \<and>
   validatePlate (new_Validator None None None) [32, 9, 160 :: nat] =
     \<lparr>valid = False, mode = Strict, vr_plate = [32, 9, 160 :: nat], reasons =
         [EmptyOrNullPlateText], warnings = [], metadata = None\<rparr> \<and>
   validatePlate (setDemoFallback (new_Validator None None None) False) [32, 9, 160 :: nat] =
     \<lparr>valid = False, mode = Strict, vr_plate = [32, 9, 160 :: nat], reasons =
         [EmptyOrNullPlateText], warnings = [], metadata = None\<rparr> \<and>
   validatePlate (new_Validator None None None) [] =
     \<lparr>valid = False, mode = Strict, vr_plate = [], reasons = [EmptyOrNullPlateText], warnings = [],
         metadata = None\<rparr>"
  using validatePlate_blank [of "[32, 9, 160 :: nat]" "new_Validator None None None"]
    validatePlate_blank [of "[32, 9, 160 :: nat]" "setDemoFallback (new_Validator None None None)
        False"]
    validatePlate_blank [of "[]" "new_Validator None None None"]
  by (simp add: is_js_whitespace_def)

lemma js_split_no_separator: "sep \<notin> set s \<Longrightarrow> js_split sep s = [s]"
  by (induction s) auto

lemma js_includes_single: "js_includes s [c] \<longleftrightarrow> c \<in> set s"
proof
  assume "js_includes s [c]"
  then obtain i where "take 1 (drop i s) = [c]"
    by (auto simp: js_includes_def list_ex_iff)
  then have "c \<in> set (take 1 (drop i s))" by simp
  then show "c \<in> set s"
    by (meson in_set_dropD in_set_takeD)
next
  assume "c \<in> set s"
  then obtain i where i: "i < length s" "s ! i = c"
    by (auto simp: in_set_conv_nth)
  then have "take 1 (drop i s) = [c]"
    by (simp add: Cons_nth_drop_Suc [symmetric])
  with i(1) show "js_includes s [c]"
    by (auto simp: js_includes_def list_ex_iff intro!: bexI [where x = i])
qed

lemma strict_fails_without_hyphen:
  "45 \<notin> set plate \<Longrightarrow>
     validateStrictFormat v plate =
       \<lparr>fr_valid = False, fr_reasons = [ExpectedThreeParts 1], fr_metadata = None\<rparr>"
  by (simp add: validateStrictFormat_def js_split_no_separator)

lemma bengali_not_blank:
  assumes "2 \<le> length (filter (\<lambda>c. isBengaliChar [c]) plate)"
  shows "plate \<noteq> [] \<and> trim plate \<noteq> [] \<and> isBengaliText plate"
proof -
  from assms have "filter (\<lambda>c. isBengaliChar [c]) plate \<noteq> []" by auto
  then obtain c where "c \<in> set (filter (\<lambda>c. isBengaliChar [c]) plate)"
    by (cases "filter (\<lambda>c. isBengaliChar [c]) plate") auto
  then have c: "c \<in> set plate" "isBengaliChar [c]" by simp_all
  then have nb: "\<not> is_js_whitespace c"
    by (auto simp: isBengaliChar_def is_js_whitespace_def)
  have "dropWhile is_js_whitespace plate \<noteq> []"
    using c(1) nb by (auto simp: dropWhile_eq_Nil_conv)
  moreover have "c \<in> set (dropWhile is_js_whitespace plate)"
    using c(1) nb by (induction plate) auto
  then have "dropWhile is_js_whitespace (rev (dropWhile is_js_whitespace plate)) \<noteq> []"
    using nb by (auto simp: dropWhile_eq_Nil_conv)
  ultimately have "trim plate \<noteq> []" by (simp add: trim_def)
  moreover have "isBengaliText plate"
    using c by (auto simp: isBengaliText_def isBengaliChar_def list_ex_iff)
  ultimately show ?thesis using c(1) by auto
qed

text \<open>
  C7. With the fallback enabled, a plate text of 11 to 20 code units that holds at least two
  Bengali code units and neither a hyphen nor a space fails the strict pass (it has one part,
  not three) and passes the fallback pass: the result is valid, in the mode \<open>fallback\<close>. The
  message about the missing separators is the first of the \<open>reasons\<close> of the result, before
  the two messages of a passed fallback; the \<open>warnings\<close> are the three fixed messages saying
  that the strict format was not recognised and the demo fallback was used.
\<close>

theorem fallback_long_plate_without_separator:
  assumes "demoFallbackEnabled v"
    and "10 < length plate" and "length plate \<le> 20"
    and "2 \<le> length (filter (\<lambda>c. isBengaliChar [c]) plate)"
    and "45 \<notin> set plate" and "32 \<notin> set plate"
  shows "validatePlate v plate =
           \<lparr>valid = True, mode = Fallback, vr_plate = plate,
            reasons = [LongPlatesShouldContainSeparators, DemoFallbackValidationPassed,
                       FoundBengaliCharacters (length (filter (\<lambda>c. isBengaliChar [c]) plate))],
            warnings = [StrictFormatNotRecognized, UsingDemoFallbackValidation,
                        ProductionRequiresStrictFormat],
            metadata = Some (FallbackMetadata
                               (length (filter (\<lambda>c. isBengaliChar [c]) plate)) False)\<rparr>"
proof -
  from bengali_not_blank [OF assms(4)]
  have nb: "plate \<noteq> []" "trim plate \<noteq> []" "isBengaliText plate" by simp_all
  have fb: "validateFallbackFormat plate =
      \<lparr>fr_valid = True,
       fr_reasons = [LongPlatesShouldContainSeparators, DemoFallbackValidationPassed,
                     FoundBengaliCharacters (length (filter (\<lambda>c. isBengaliChar [c]) plate))],
       fr_metadata = Some (FallbackMetadata
                             (length (filter (\<lambda>c. isBengaliChar [c]) plate)) False)\<rparr>"
    using assms(2-6) by (simp add: validateFallbackFormat_def js_includes_single Let_def)
  show ?thesis
    using nb assms(1)
    by (simp add: validatePlate_def strict_fails_without_hyphen [OF assms(5)] fb Let_def)
qed

theorem fallback_long_plate_without_separator_witness:
  "demoFallbackEnabled (new_Validator None None None) \<and>
   length [2453, 2454, 2455, 2453, 2454, 2455, 2453, 2454, 2455, 2453, 2454 :: nat] = 11 \<and>
   length (filter (\<lambda>c. isBengaliChar [c]) [2453, 2454, 2455, 2453, 2454, 2455, 2453, 2454, 2455,
       2453, 2454 :: nat]) = 11 \<and>
   45 \<notin> set [2453, 2454, 2455, 2453, 2454, 2455, 2453, 2454, 2455, 2453, 2454 :: nat] \<and> 32 \<notin> set
       [2453, 2454, 2455, 2453, 2454, 2455, 2453, 2454, 2455, 2453, 2454 :: nat] \<and>
   validatePlate (new_Validator None None None) [2453, 2454, 2455, 2453, 2454, 2455, 2453, 2454,
       2455, 2453, 2454 :: nat] =
     \<lparr>valid = True, mode = Fallback, vr_plate = [2453, 2454, 2455, 2453, 2454, 2455, 2453, 2454,
         2455, 2453, 2454 :: nat], reasons = [LongPlatesShouldContainSeparators,
         DemoFallbackValidationPassed, FoundBengaliCharacters 11], warnings =
         [StrictFormatNotRecognized, UsingDemoFallbackValidation, ProductionRequiresStrictFormat],
         metadata = Some (FallbackMetadata 11 False)\<rparr>"
  using fallback_long_plate_without_separator [of "new_Validator None None None" "[2453, 2454, 2455,
      2453, 2454, 2455, 2453, 2454, 2455, 2453, 2454 :: nat]"]
  by (simp add: new_Validator_def isBengaliChar_def)

text \<open>
  The claim as it is written has the missing separators recorded as a warning. For the text
  of the witness the message is among the reasons of the result and not among its warnings.
\<close>

theorem fallback_long_plate_without_separator_counterexample:
  "LongPlatesShouldContainSeparators \<notin> set (warnings (validatePlate (new_Validator None None None)
      [2453, 2454, 2455, 2453, 2454, 2455, 2453, 2454, 2455, 2453, 2454 :: nat])) \<and>
   LongPlatesShouldContainSeparators \<in> set (reasons (validatePlate (new_Validator None None None)
       [2453, 2454, 2455, 2453, 2454, 2455, 2453, 2454, 2455, 2453, 2454 :: nat])) \<and>
   valid (validatePlate (new_Validator None None None) [2453, 2454, 2455, 2453, 2454, 2455, 2453,
       2454, 2455, 2453, 2454 :: nat]) \<and>
   mode (validatePlate (new_Validator None None None) [2453, 2454, 2455, 2453, 2454, 2455, 2453,
       2454, 2455, 2453, 2454 :: nat]) = Fallback"
  by (simp add: validatePlate_def validateStrictFormat_def validateFallbackFormat_def
      new_Validator_def setDemoFallback_def default_regions_def default_letters_def
      default_digits_def trim_def is_js_whitespace_def js_includes_def isBengaliText_def
      isBengaliLetter_def isBengaliChar_def inferVehicleType_def check_letters_def check_digits_def
      is_high_surrogate_def is_low_surrogate_def Let_def)

end

